theory Spec2Isabelle
  imports Main "HOL-Library.AList"
begin

section \<open>Errors\<close>

text \<open>
  The two functions of the source raise JavaScript exceptions. \<open>ValidationError\<close> is the
  one \<open>parse\<close> throws itself, with its message; \<open>TypeError\<close> stands for the exceptions
  of the runtime and of the libraries (semver's \<open>new Range\<close> on text that is not a range,
  a property read on \<open>null\<close>, a method call on a value that has no such method).
\<close>

datatype error = ValidationError string | TypeError

section \<open>Manifests\<close>

text \<open>
  A dependency block of a manifest is a JSON object from dependency name to declared
  range: an association list, read with \<open>map_of\<close> and assigned with \<open>AList.update\<close>,
  which keeps the position of an existing key as a JavaScript assignment does. A block is
  read as its own members; names inherited from \<open>Object.prototype\<close> are not modelled.
  The fields of a manifest that the source never names ride in the record's extension.
\<close>

type_synonym deps = "(string \<times> string) list"

record packageJSON =
  name :: string
  version :: string
  dependencies :: "deps option"
  devDependencies :: "deps option"
  peerDependencies :: "deps option"
  optionalDependencies :: "deps option"

datatype dependencyType = Dependencies | DevDependencies | PeerDependencies | OptionalDependencies

definition DEPENDENCY_TYPES :: "dependencyType list" where
  "DEPENDENCY_TYPES = [Dependencies, DevDependencies, PeerDependencies, OptionalDependencies]"

text \<open>\<open>packageJson[type]\<close>, read and (for the block stored under that tag) written.\<close>

fun getDeps :: "dependencyType \<Rightarrow> 'a packageJSON_scheme \<Rightarrow> deps option" where
  "getDeps Dependencies pj = dependencies pj"
| "getDeps DevDependencies pj = devDependencies pj"
| "getDeps PeerDependencies pj = peerDependencies pj"
| "getDeps OptionalDependencies pj = optionalDependencies pj"

fun setDeps :: "dependencyType \<Rightarrow> deps \<Rightarrow> 'a packageJSON_scheme \<Rightarrow> 'a packageJSON_scheme" where
  "setDeps Dependencies d pj = pj\<lparr>dependencies := Some d\<rparr>"
| "setDeps DevDependencies d pj = pj\<lparr>devDependencies := Some d\<rparr>"
| "setDeps PeerDependencies d pj = pj\<lparr>peerDependencies := Some d\<rparr>"
| "setDeps OptionalDependencies d pj = pj\<lparr>optionalDependencies := Some d\<rparr>"

section \<open>versionPackage\<close>

text \<open>
  \<open>versionPackage\<close> assigns into the manifest object it is handed, so manifests live in a
  store: a release holds the address of its manifest, and the function returns the store
  it leaves behind together with its result. A dependency block is owned by its manifest
  (as after \<open>JSON.parse\<close>), so it is kept inside the manifest's cell. The fields of a
  release other than \<open>newVersion\<close> and \<open>packageJson\<close> ride in the record's extension.
\<close>

type_synonym ref = nat

type_synonym 'a heap = "ref \<Rightarrow> 'a packageJSON_scheme option"

record release =
  newVersion :: string
  packageJson :: ref

definition startsWith :: "string \<Rightarrow> string \<Rightarrow> bool" where
  "startsWith s searchString = (take (length searchString) s = searchString)"

text \<open>
  Lines 29 to 44, one iteration of the inner loop for a slot that holds
  \<open>depCurrentVersion\<close>: \<open>Inr None\<close> when nothing is assigned (the \<open>continue\<close> of line 29,
  or a range that normalises to the empty string), \<open>Inr (Some r)\<close> when \<open>r\<close> is assigned
  to the slot, \<open>Inl e\<close> when \<open>new Range\<close> throws \<open>e\<close>. The semver parser
  (\<open>new Range(text).range\<close>) and the range classifier are the two collaborators.
\<close>

definition newNewRange ::
  "(string \<Rightarrow> error + string) \<Rightarrow> (string \<Rightarrow> string) \<Rightarrow> string \<Rightarrow> string \<Rightarrow> error + string option" where
  "newNewRange Range' getVersionRangeType depCurrentVersion version' =
     (if depCurrentVersion = [] \<or>
         List.member [''link:'', ''link:.'', ''file:'', ''file:.''] depCurrentVersion
      then Inr None
      else
        let usesWorkspaceRange = startsWith depCurrentVersion ''workspace:'';
            inner = (if usesWorkspaceRange then drop 10 depCurrentVersion else depCurrentVersion)
        in case Range' inner of
             Inl e \<Rightarrow> Inl e
           | Inr range' \<Rightarrow>
               if range' \<noteq> []
               then Inr (Some ((if usesWorkspaceRange then ''workspace:'' else []) @
                               getVersionRangeType inner @ version'))
               else Inr None)"

text \<open>The declared range a slot holds after the iteration: the one assigned, or the
  one it held.\<close>

definition rewrite ::
  "(string \<Rightarrow> error + string) \<Rightarrow> (string \<Rightarrow> string) \<Rightarrow> string \<Rightarrow> string \<Rightarrow> error + string" where
  "rewrite Range' getVersionRangeType depCurrentVersion version' =
     (case newNewRange Range' getVersionRangeType depCurrentVersion version' of
        Inl e \<Rightarrow> Inl e
      | Inr None \<Rightarrow> Inr depCurrentVersion
      | Inr (Some r) \<Rightarrow> Inr r)"

text \<open>The inner loop, over \<open>versionsToUpdate\<close>, for one dependency block. An exception
  leaves the block as the earlier iterations made it.\<close>

fun updateDeps ::
  "(string \<Rightarrow> error + string) \<Rightarrow> (string \<Rightarrow> string) \<Rightarrow> (string \<times> string) list \<Rightarrow> deps
     \<Rightarrow> error option \<times> deps" where
  "updateDeps Range' getVersionRangeType [] deps = (None, deps)"
| "updateDeps Range' getVersionRangeType ((name', version') # versionsToUpdate) deps =
     (case map_of deps name' of
        None \<Rightarrow> updateDeps Range' getVersionRangeType versionsToUpdate deps
      | Some depCurrentVersion \<Rightarrow>
          (case newNewRange Range' getVersionRangeType depCurrentVersion version' of
             Inl e \<Rightarrow> (Some e, deps)
           | Inr None \<Rightarrow> updateDeps Range' getVersionRangeType versionsToUpdate deps
           | Inr (Some r) \<Rightarrow>
               updateDeps Range' getVersionRangeType versionsToUpdate (AList.update name' r deps)))"

text \<open>The outer loop, over the dependency types.\<close>

fun updateTypes ::
  "(string \<Rightarrow> error + string) \<Rightarrow> (string \<Rightarrow> string) \<Rightarrow> (string \<times> string) list
     \<Rightarrow> dependencyType list \<Rightarrow> 'a packageJSON_scheme \<Rightarrow> error option \<times> 'a packageJSON_scheme" where
  "updateTypes Range' getVersionRangeType versionsToUpdate [] pj = (None, pj)"
| "updateTypes Range' getVersionRangeType versionsToUpdate (type # types) pj =
     (case getDeps type pj of
        None \<Rightarrow> updateTypes Range' getVersionRangeType versionsToUpdate types pj
      | Some deps \<Rightarrow>
          (case updateDeps Range' getVersionRangeType versionsToUpdate deps of
             (Some e, deps') \<Rightarrow> (Some e, setDeps type deps' pj)
           | (None, deps') \<Rightarrow>
               updateTypes Range' getVersionRangeType versionsToUpdate types (setDeps type deps' pj)))"

text \<open>
  The function: the manifest's \<open>version\<close> is assigned first (line 22), then the loops
  run on the same object, and the result is a copy of the release that holds the same
  manifest address (line 50). A release whose \<open>packageJson\<close> is no object makes line 22
  throw.
\<close>

definition versionPackage ::
  "(string \<Rightarrow> error + string) \<Rightarrow> (string \<Rightarrow> string) \<Rightarrow> 'b release_scheme \<Rightarrow> (string \<times> string) list
     \<Rightarrow> 'a heap \<Rightarrow> (error + 'b release_scheme) \<times> 'a heap" where
  "versionPackage Range' getVersionRangeType release versionsToUpdate h =
     (case h (packageJson release) of
        None \<Rightarrow> (Inl TypeError, h)
      | Some pj \<Rightarrow>
          (case updateTypes Range' getVersionRangeType versionsToUpdate DEPENDENCY_TYPES
                  (pj\<lparr>version := newVersion release\<rparr>) of
             (Some e, pj') \<Rightarrow> (Inl e, h(packageJson release \<mapsto> pj'))
           | (None, pj') \<Rightarrow> (Inr release, h(packageJson release \<mapsto> pj'))))"

text \<open>\<open>packageJson[type][name]\<close>, the declared range of one slot of a manifest, if it has
  the block and the block has the name.\<close>

definition entry :: "'a packageJSON_scheme \<Rightarrow> dependencyType \<Rightarrow> string \<Rightarrow> string option" where
  "entry pj type name' = (case getDeps type pj of None \<Rightarrow> None | Some deps \<Rightarrow> map_of deps name')"

subsection \<open>The collaborators of versionPackage\<close>

text \<open>The characters of the comparison operators of a range.\<close>

definition isOperatorChar :: "char \<Rightarrow> bool" where
  "isOperatorChar c = List.member ''<>='' c"

text \<open>
  Modelled from the spec: the Range Classifier (the package
  \<open>@changesets/get-version-range-type\<close>, whose source is not among the files). It
  returns the minimal prefix of a range: empty for an exact version, \<open>^\<close> for a caret
  range, \<open>~\<close> for a tilde range, and the literal operator characters otherwise.
\<close>

definition getVersionRangeType :: "string \<Rightarrow> string" where
  "getVersionRangeType versionRange =
     (if take 1 versionRange = ''^'' then ''^''
      else if take 1 versionRange = ''~'' then ''~''
      else takeWhile isOperatorChar versionRange)"

definition isDigit :: "char \<Rightarrow> bool" where
  "isDigit c = List.member ''0123456789'' c"

text \<open>
  Modelled from the spec: a new version handed to the rewriter is a valid bare version,
  three dot-separated numbers, with an optional pre-release or build suffix.
\<close>

definition isBareVersion :: "string \<Rightarrow> bool" where
  "isBareVersion v =
     (let major = takeWhile isDigit v; r1 = dropWhile isDigit v;
          minor = takeWhile isDigit (drop 1 r1); r2 = dropWhile isDigit (drop 1 r1);
          patch = takeWhile isDigit (drop 1 r2); r3 = dropWhile isDigit (drop 1 r2)
      in major \<noteq> [] \<and> take 1 r1 = ''.'' \<and> minor \<noteq> [] \<and> take 1 r2 = ''.'' \<and> patch \<noteq> [] \<and>
         (r3 = [] \<or> take 1 r3 = ''-'' \<or> take 1 r3 = ''+''))"

text \<open>
  The semver parser is a library outside the repository. Theorems hold for every parser;
  the examples run on this table of the library's answers for the declared ranges of the
  spec's example scenarios: \<open>*\<close>, \<open>x\<close>, \<open>X\<close> and the empty text normalise to the empty
  range, \<open>^3.0.0\<close> and \<open>~1.2.0\<close> to comparator pairs, and \<open>file:../pkg-b\<close> is no range
  (as is every other text, as far as this table goes).
\<close>

definition exampleRange :: "string \<Rightarrow> error + string" where
  "exampleRange text =
     (if List.member ['''', ''*'', ''x'', ''X''] text then Inr ''''
      else if text = ''^3.0.0'' then Inr ''>=3.0.0 <4.0.0''
      else if text = ''~1.2.0'' then Inr ''>=1.2.0 <1.3.0''
      else Inl TypeError)"

section \<open>Raw configuration\<close>

text \<open>
  The raw configuration is what \<open>JSON.parse\<close> gives for \<open>.changeset/config.json\<close>: a
  JSON object whose fields hold JSON values that nothing has checked yet. A field that
  the file does not have reads as \<open>undefined\<close>, here \<open>None\<close>. The members of a JSON
  object are kept as an association list with one value per key. The source looks at a
  number only to see whether it is zero, so numbers are integers here.
  The field \<open>___experimentalUnsafeOptions_WILL_CHANGE_IN_PATCH\<close> is written without its
  leading underscores.
\<close>

datatype json = JNull | JBool bool | JNum int | JStr string | JArr "json list" | JObj "(string \<times> json) list"

record writtenConfig =
  changelog :: "json option"
  access :: "json option"
  commit :: "json option"
  linked :: "json option"
  baseBranch :: "json option"
  updateInternalDependencies :: "json option"
  ignore :: "json option"
  bumpVersionsWithWorkspaceProtocolOnly :: "json option"
  experimentalUnsafeOptions_WILL_CHANGE_IN_PATCH :: "json option"

text \<open>
  The validated configuration. \<open>parse\<close> copies the values of \<open>changelog\<close>, \<open>access\<close>,
  \<open>commit\<close>, \<open>baseBranch\<close>, \<open>updateInternalDependencies\<close> and the two experimental flags
  from the raw configuration as they are, so these fields hold JSON values; \<open>linked\<close>
  and \<open>ignore\<close> hold what the name matcher returned, and
  \<open>bumpVersionsWithWorkspaceProtocolOnly\<close> the result of a comparison.
\<close>

record experimentalOptions =
  onlyUpdatePeerDependentsWhenOutOfRange :: json
  useCalculatedVersionForSnapshots :: json

record config =
  changelog :: json
  access :: json
  commit :: json
  linked :: "string list list"
  baseBranch :: json
  updateInternalDependencies :: json
  ignore :: "string list"
  bumpVersionsWithWorkspaceProtocolOnly :: bool
  experimentalUnsafeOptions_WILL_CHANGE_IN_PATCH :: experimentalOptions

text \<open>The package graph of \<open>@manypkg/get-packages\<close>.\<close>

record package =
  dir :: string
  packageJson :: packageJSON

record packages =
  tool :: string
  root :: package
  packages :: "package list"

text \<open>
  The collaborators of \<open>parse\<close>, none of which is among the source files:
  \<open>micromatch(list, patterns)\<close> and \<open>micromatch.isMatch(str, pattern)\<close> of the glob
  library, \<open>getDependentsGraph(packages)\<close> with the \<open>get\<close> of the map it returns
  (\<open>None\<close> for a key the map does not have), and \<open>JSON.stringify(value, null, 2)\<close>.
  \<open>parse\<close> takes them as arguments, and the theorems hold for every choice of them.
  They are functions that always return: an exception of a library on an argument of the
  right type (the glob library throws on an empty pattern) is not modelled.
\<close>

record externals =
  micromatch :: "string list \<Rightarrow> string list \<Rightarrow> string list"
  isMatch :: "string \<Rightarrow> string \<Rightarrow> bool"
  getDependentsGraph :: "packages \<Rightarrow> string \<Rightarrow> string list option"
  stringify :: "json \<Rightarrow> string"

subsection \<open>Reading JSON values\<close>

text \<open>\<open>typeof v === "string"\<close>, \<open>typeof v === "boolean"\<close>, and the truthiness that
  \<open>if (json.ignore)\<close> tests.\<close>

fun isString :: "json \<Rightarrow> bool" where
  "isString (JStr s) = True"
| "isString v = False"

fun isBoolean :: "json \<Rightarrow> bool" where
  "isBoolean (JBool b) = True"
| "isBoolean v = False"

fun truthy :: "json \<Rightarrow> bool" where
  "truthy JNull = False"
| "truthy (JBool b) = b"
| "truthy (JNum n) = (n \<noteq> 0)"
| "truthy (JStr s) = (s \<noteq> [])"
| "truthy (JArr vs) = True"
| "truthy (JObj members) = True"

text \<open>\<open>isArray(v) && v.every(x => typeof x === "string")\<close>, with the strings read off
  when the test holds; and the same one level up, for \<open>linked\<close>.\<close>

fun stringsOf :: "json list \<Rightarrow> string list option" where
  "stringsOf [] = Some []"
| "stringsOf (JStr s # vs) = map_option ((#) s) (stringsOf vs)"
| "stringsOf (v # vs) = None"

fun arrayOfStrings :: "json \<Rightarrow> string list option" where
  "arrayOfStrings (JArr vs) = stringsOf vs"
| "arrayOfStrings v = None"

fun groupsOf :: "json list \<Rightarrow> string list list option" where
  "groupsOf [] = Some []"
| "groupsOf (v # vs) =
     (case arrayOfStrings v of
        None \<Rightarrow> None
      | Some g \<Rightarrow> map_option ((#) g) (groupsOf vs))"

fun arrayOfArraysOfStrings :: "json \<Rightarrow> string list list option" where
  "arrayOfArraysOfStrings (JArr vs) = groupsOf vs"
| "arrayOfArraysOfStrings v = None"

text \<open>
  Reading a property of a JSON value, as the destructuring of line 290 and the reads of
  lines 363 to 376 do: \<open>null\<close> has no properties and the read throws; an object gives
  the member or \<open>undefined\<close>; a boolean, a number, a string or an array has neither of
  the two properties that are read.
\<close>

fun getProp :: "json \<Rightarrow> string \<Rightarrow> error + json option" where
  "getProp JNull key = Inl TypeError"
| "getProp (JObj members) key = Inr (map_of members key)"
| "getProp v key = Inr None"

subsection \<open>The messages\<close>

definition join :: "string \<Rightarrow> string list \<Rightarrow> string" where
  "join separator xs = concat (case xs of [] \<Rightarrow> [] | x # rest \<Rightarrow> x # map ((@) separator) rest)"

text \<open>The violation messages, as the template literals of the source build them;
  \<open>s\<close> is the text \<open>JSON.stringify\<close> gave for the offending value.\<close>

definition changelogMessage :: "string \<Rightarrow> string" where
  \<open>changelogMessage s =
     ''The `changelog` option is set as '' @
     s @
     '' when the only valid values are undefined, a module path(e.g. '' @
     ''"@changesets/cli/changelog" or "./some-module") or a tuple with a '' @
     ''module path and config for the changelog generator(e.g. '' @
     ''["@changesets/cli/changelog", { someOption: true }])''\<close>

definition accessMessage :: "string \<Rightarrow> string" where
  \<open>accessMessage s =
     ''The `access` option is set as '' @
     s @
     '' when the only valid values are undefined, "public" or "restricted"''\<close>

definition commitMessage :: "string \<Rightarrow> string" where
  \<open>commitMessage s =
     ''The `commit` option is set as '' @
     s @
     '' when the only valid values are undefined or a boolean''\<close>

definition baseBranchMessage :: "string \<Rightarrow> string" where
  \<open>baseBranchMessage s =
     ''The `baseBranch` option is set as '' @
     s @
     '' but the `baseBranch` option can only be set as a string''\<close>

definition linkedMessage :: "string \<Rightarrow> string" where
  \<open>linkedMessage s =
     ''The `linked` option is set as '' @
     s @
     '' when the only valid values are undefined or an array of arrays of '' @
     ''package names''\<close>

definition linkedNonExistingMessage :: "string \<Rightarrow> string" where
  \<open>linkedNonExistingMessage nonExistingPkgName =
     ''The package or glob expression "'' @
     nonExistingPkgName @
     ''" specified in the `linked` option does not match any package in the '' @
     ''project. You may have misspelled the package name or provided an '' @
     ''invalid glob expression. Note that glob expressions must be defined '' @
     ''according to https://www.npmjs.com/package/micromatch.''\<close>

definition duplicatedMessage :: "string \<Rightarrow> string" where
  \<open>duplicatedMessage pkgName =
     ''The package "'' @
     pkgName @
     ''" is defined in multiple sets of linked packages. Packages can only '' @
     ''be defined in a single set of linked packages. If you are using glob '' @
     ''expressions, make sure that they are valid according to '' @
     ''https://www.npmjs.com/package/micromatch.''\<close>

definition updateInternalDependenciesMessage :: "string \<Rightarrow> string" where
  \<open>updateInternalDependenciesMessage s =
     ''The `updateInternalDependencies` option is set as '' @
     s @
     '' but can only be 'patch' or 'minor'' @
     [CHR 0x27]\<close>

definition ignoreMessage :: "string \<Rightarrow> string" where
  \<open>ignoreMessage s =
     ''The `ignore` option is set as '' @
     s @
     '' when the only valid values are undefined or an array of package names''\<close>

definition ignoreNonExistingMessage :: "string \<Rightarrow> string" where
  \<open>ignoreNonExistingMessage nonExistingPkgName =
     ''The package or glob expression "'' @
     nonExistingPkgName @
     ''" is specified in the `ignore` option but it is not found in the '' @
     ''project. You may have misspelled the package name or provided an '' @
     ''invalid glob expression. Note that glob expressions must be defined '' @
     ''according to https://www.npmjs.com/package/micromatch.''\<close>

definition dependentMessage :: "string \<Rightarrow> string \<Rightarrow> string" where
  \<open>dependentMessage dependent ignoredPackage =
     ''The package "'' @
     dependent @
     ''" depends on the ignored package "'' @
     ignoredPackage @
     ''", but "'' @
     dependent @
     ''" is not being ignored. Please add "'' @
     dependent @
     ''" to the `ignore` option.''\<close>

definition onlyUpdatePeerDependentsWhenOutOfRangeMessage :: "string \<Rightarrow> string" where
  \<open>onlyUpdatePeerDependentsWhenOutOfRangeMessage s =
     ''The `onlyUpdatePeerDependentsWhenOutOfRange` option is set as '' @
     s @
     '' when the only valid values are undefined or a boolean''\<close>

definition useCalculatedVersionForSnapshotsMessage :: "string \<Rightarrow> string" where
  \<open>useCalculatedVersionForSnapshotsMessage s =
     ''The `useCalculatedVersionForSnapshots` option is set as '' @
     s @
     '' when the only valid values are undefined or a boolean''\<close>

text \<open>The message of the exception of line 320, and the warning of line 149.\<close>

definition validationMessage :: "string list \<Rightarrow> string" where
  "validationMessage messages =
     ''Some errors occurred when validating the changesets config:'' @ [CHR 0x0A] @
     join [CHR 0x0A] messages"

definition privateAccessWarning :: string where
  \<open>privateAccessWarning =
     ''The `access` option is set as "private", but this is actually not a '' @
     ''valid value - the correct form is "restricted".''\<close>

section \<open>parse\<close>

definition defaultWrittenConfig :: writtenConfig where
  "defaultWrittenConfig =
     \<lparr>writtenConfig.changelog = Some (JStr ''@changesets/cli/changelog''),
      writtenConfig.access = Some (JStr ''restricted''),
      writtenConfig.commit = Some (JBool False),
      writtenConfig.linked = Some (JArr []),
      writtenConfig.baseBranch = Some (JStr ''master''),
      writtenConfig.updateInternalDependencies = Some (JStr ''patch''),
      writtenConfig.ignore = Some (JArr []),
      writtenConfig.bumpVersionsWithWorkspaceProtocolOnly = None,
      writtenConfig.experimentalUnsafeOptions_WILL_CHANGE_IN_PATCH = None\<rparr>"

fun getNormalisedChangelogOption :: "json \<Rightarrow> json" where
  "getNormalisedChangelogOption (JBool False) = JBool False"
| "getNormalisedChangelogOption (JStr thing) = JArr [JStr thing, JNull]"
| "getNormalisedChangelogOption thing = thing"

definition normalizePackageNames ::
  "externals \<Rightarrow> string list \<Rightarrow> string list \<Rightarrow> string list \<times> string list" where
  "normalizePackageNames ext listOfPackageNamesOrGlob pkgNames =
     (let matchingPackages = micromatch ext pkgNames listOfPackageNamesOrGlob;
          nonExistingPackages =
            filter (\<lambda>pkgNameOrGlob. \<not> list_ex (\<lambda>pkgName. isMatch ext pkgName pkgNameOrGlob) pkgNames)
              listOfPackageNamesOrGlob
      in (matchingPackages, nonExistingPackages))"

definition pkgNamesOf :: "packages \<Rightarrow> string list" where
  "pkgNamesOf pkgs = map (\<lambda>p. name (package.packageJson p)) (packages.packages pkgs)"

subsection \<open>The checks, in the order of the source\<close>

text \<open>Lines 127 to 144. The last conjunct is the tuple test: an array of length two whose
  first element is a string.\<close>

fun isChangelogTuple :: "json \<Rightarrow> bool" where
  "isChangelogTuple (JArr [JStr s, opts]) = True"
| "isChangelogTuple v = False"

definition changelogMessages :: "externals \<Rightarrow> writtenConfig \<Rightarrow> string list" where
  "changelogMessages ext json =
     (case writtenConfig.changelog json of
        None \<Rightarrow> []
      | Some v \<Rightarrow>
          if v \<noteq> JBool False \<and> \<not> isString v \<and> \<not> isChangelogTuple v
          then [changelogMessage (stringify ext v)]
          else [])"

text \<open>Lines 146 to 165.\<close>

definition normalizedAccess :: "writtenConfig \<Rightarrow> json option" where
  "normalizedAccess json =
     (if writtenConfig.access json = Some (JStr ''private'') then Some (JStr ''restricted'')
      else writtenConfig.access json)"

definition warnings :: "writtenConfig \<Rightarrow> string list" where
  "warnings json =
     (if writtenConfig.access json = Some (JStr ''private'') then [privateAccessWarning] else [])"

definition accessMessages :: "externals \<Rightarrow> writtenConfig \<Rightarrow> string list" where
  "accessMessages ext json =
     (case normalizedAccess json of
        None \<Rightarrow> []
      | Some v \<Rightarrow>
          if v \<noteq> JStr ''restricted'' \<and> v \<noteq> JStr ''public''
          then [accessMessage (stringify ext v)]
          else [])"

text \<open>Lines 167 to 184.\<close>

definition commitMessages :: "externals \<Rightarrow> writtenConfig \<Rightarrow> string list" where
  "commitMessages ext json =
     (case writtenConfig.commit json of
        None \<Rightarrow> []
      | Some v \<Rightarrow> if \<not> isBoolean v then [commitMessage (stringify ext v)] else [])"

definition baseBranchMessages :: "externals \<Rightarrow> writtenConfig \<Rightarrow> string list" where
  "baseBranchMessages ext json =
     (case writtenConfig.baseBranch json of
        None \<Rightarrow> []
      | Some v \<Rightarrow> if \<not> isString v then [baseBranchMessage (stringify ext v)] else [])"

text \<open>
  Lines 204 to 232. The two sets are lists without repetition in insertion order, which
  is the order \<open>Set.forEach\<close> visits. \<open>foundLoop\<close> is the loop of lines 211 to 216 over
  one resolved group; \<open>linkedLoop\<close> is the loop of lines 206 to 225 over the groups,
  which also pushes the message of each pattern that matched nothing.
\<close>

definition setAdd :: "string \<Rightarrow> string list \<Rightarrow> string list" where
  "setAdd x s = (if List.member s x then s else s @ [x])"

fun foundLoop :: "string list \<Rightarrow> string list \<times> string list \<Rightarrow> string list \<times> string list" where
  "foundLoop [] (foundPkgNames, duplicatedPkgNames) = (foundPkgNames, duplicatedPkgNames)"
| "foundLoop (linkedPkgName # normalizedLinkedGroup) (foundPkgNames, duplicatedPkgNames) =
     foundLoop normalizedLinkedGroup
       (setAdd linkedPkgName foundPkgNames,
        if List.member foundPkgNames linkedPkgName
        then setAdd linkedPkgName duplicatedPkgNames
        else duplicatedPkgNames)"

fun linkedLoop ::
  "externals \<Rightarrow> string list \<Rightarrow> string list list \<Rightarrow> string list \<times> string list \<times> string list
     \<Rightarrow> string list \<times> string list \<times> string list" where
  "linkedLoop ext pkgNames [] (foundPkgNames, duplicatedPkgNames, messages) =
     (foundPkgNames, duplicatedPkgNames, messages)"
| "linkedLoop ext pkgNames (linkedGroup # groups) (foundPkgNames, duplicatedPkgNames, messages) =
     (case normalizePackageNames ext linkedGroup pkgNames of
        (normalizedLinkedGroup, nonExistingPackages) \<Rightarrow>
          (case foundLoop normalizedLinkedGroup (foundPkgNames, duplicatedPkgNames) of
             (foundPkgNames', duplicatedPkgNames') \<Rightarrow>
               linkedLoop ext pkgNames groups
                 (foundPkgNames', duplicatedPkgNames',
                  messages @ map linkedNonExistingMessage nonExistingPackages)))"

text \<open>Lines 185 to 234.\<close>

definition linkedMessages :: "externals \<Rightarrow> writtenConfig \<Rightarrow> string list \<Rightarrow> string list" where
  "linkedMessages ext json pkgNames =
     (case writtenConfig.linked json of
        None \<Rightarrow> []
      | Some v \<Rightarrow>
          (case arrayOfArraysOfStrings v of
             None \<Rightarrow> [linkedMessage (stringify ext v)]
           | Some groups \<Rightarrow>
               (case linkedLoop ext pkgNames groups ([], [], []) of
                  (foundPkgNames, duplicatedPkgNames, messages) \<Rightarrow>
                    messages @ map duplicatedMessage duplicatedPkgNames)))"

text \<open>Lines 235 to 246.\<close>

definition updateInternalDependenciesMessages :: "externals \<Rightarrow> writtenConfig \<Rightarrow> string list" where
  "updateInternalDependenciesMessages ext json =
     (case writtenConfig.updateInternalDependencies json of
        None \<Rightarrow> []
      | Some v \<Rightarrow>
          if \<not> List.member [JStr ''patch'', JStr ''minor''] v
          then [updateInternalDependenciesMessage (stringify ext v)]
          else [])"

text \<open>Lines 274 to 285: for each element of the raw \<open>ignore\<close> list, the dependents the
  graph has under that very text, and a message for each of them that the raw list does
  not include.\<close>

definition dependentsMessages :: "externals \<Rightarrow> packages \<Rightarrow> string list \<Rightarrow> string list" where
  "dependentsMessages ext pkgs ignoreList =
     concat (map (\<lambda>ignoredPackage.
        let dependents = (case getDependentsGraph ext pkgs ignoredPackage of
                            None \<Rightarrow> []
                          | Some ds \<Rightarrow> ds)
        in map (\<lambda>dependent. dependentMessage dependent ignoredPackage)
             (filter (\<lambda>dependent. \<not> List.member ignoreList dependent) dependents))
        ignoreList)"

text \<open>Lines 247 to 287. The block is entered when \<open>json.ignore\<close> is truthy.\<close>

definition ignoreMessages :: "externals \<Rightarrow> writtenConfig \<Rightarrow> packages \<Rightarrow> string list \<Rightarrow> string list" where
  "ignoreMessages ext json pkgs pkgNames =
     (case writtenConfig.ignore json of
        None \<Rightarrow> []
      | Some v \<Rightarrow>
          if truthy v
          then (case arrayOfStrings v of
                  None \<Rightarrow> [ignoreMessage (stringify ext v)]
                | Some ignoreList \<Rightarrow>
                    map ignoreNonExistingMessage (snd (normalizePackageNames ext ignoreList pkgNames)) @
                    dependentsMessages ext pkgs ignoreList)
          else [])"

text \<open>Lines 289 to 318. The destructuring of line 290 throws on \<open>null\<close>.\<close>

definition booleanOptionMessages :: "(string \<Rightarrow> string) \<Rightarrow> externals \<Rightarrow> json option \<Rightarrow> string list" where
  "booleanOptionMessages message ext option =
     (case option of
        None \<Rightarrow> []
      | Some v \<Rightarrow> if \<not> isBoolean v then [message (stringify ext v)] else [])"

definition experimentalMessages :: "externals \<Rightarrow> writtenConfig \<Rightarrow> error + string list" where
  "experimentalMessages ext json =
     (case writtenConfig.experimentalUnsafeOptions_WILL_CHANGE_IN_PATCH json of
        None \<Rightarrow> Inr []
      | Some options \<Rightarrow>
          (case getProp options ''onlyUpdatePeerDependentsWhenOutOfRange'' of
             Inl e \<Rightarrow> Inl e
           | Inr onlyUpdate \<Rightarrow>
               (case getProp options ''useCalculatedVersionForSnapshots'' of
                  Inl e \<Rightarrow> Inl e
                | Inr useCalculated \<Rightarrow>
                    Inr (booleanOptionMessages onlyUpdatePeerDependentsWhenOutOfRangeMessage ext onlyUpdate @
                         booleanOptionMessages useCalculatedVersionForSnapshotsMessage ext useCalculated))))"

text \<open>The list \<open>messages\<close> as it stands at line 319, or the exception thrown before.\<close>

definition collectMessages :: "externals \<Rightarrow> writtenConfig \<Rightarrow> packages \<Rightarrow> error + string list" where
  "collectMessages ext json pkgs =
     (case experimentalMessages ext json of
        Inl e \<Rightarrow> Inl e
      | Inr experimental \<Rightarrow>
          Inr (changelogMessages ext json @ accessMessages ext json @ commitMessages ext json @
               baseBranchMessages ext json @ linkedMessages ext json (pkgNamesOf pkgs) @
               updateInternalDependenciesMessages ext json @
               ignoreMessages ext json pkgs (pkgNamesOf pkgs) @ experimental))"

subsection \<open>The configuration object of lines 326 to 378\<close>

text \<open>
  One experimental flag, lines 362 to 376. The object is read again; it is not
  \<open>null\<close> when these lines are reached.
\<close>

definition experimentalFlag :: "writtenConfig \<Rightarrow> string \<Rightarrow> error + json" where
  "experimentalFlag json key =
     (case writtenConfig.experimentalUnsafeOptions_WILL_CHANGE_IN_PATCH json of
        None \<Rightarrow> Inr (JBool False)
      | Some options \<Rightarrow>
          (case getProp options key of
             Inl e \<Rightarrow> Inl e
           | Inr None \<Rightarrow> Inr (JBool False)
           | Inr (Some v) \<Rightarrow> Inr v))"

text \<open>
  \<open>linked\<close> and \<open>ignore\<close>, lines 338 to 343 and 354 to 357. These lines are reached with
  a \<open>linked\<close> that passed its check. They are reached with an \<open>ignore\<close> that is an array
  of strings or is falsy (\<open>null\<close>, \<open>false\<close>, \<open>0\<close>, the empty string): on a falsy value
  \<open>normalizePackageNames\<close> throws, at the latest when line 93 calls \<open>filter\<close> on it.
\<close>

definition configLinked :: "externals \<Rightarrow> writtenConfig \<Rightarrow> string list \<Rightarrow> error + string list list" where
  "configLinked ext json pkgNames =
     (case writtenConfig.linked json of
        None \<Rightarrow> Inr []
      | Some v \<Rightarrow>
          (case arrayOfArraysOfStrings v of
             None \<Rightarrow> Inl TypeError
           | Some groups \<Rightarrow>
               Inr (map (\<lambda>linkedGroup. fst (normalizePackageNames ext linkedGroup pkgNames)) groups)))"

definition configIgnore :: "externals \<Rightarrow> writtenConfig \<Rightarrow> string list \<Rightarrow> error + string list" where
  "configIgnore ext json pkgNames =
     (case writtenConfig.ignore json of
        None \<Rightarrow> Inr []
      | Some v \<Rightarrow>
          (case arrayOfStrings v of
             None \<Rightarrow> Inl TypeError
           | Some ignoreList \<Rightarrow> Inr (fst (normalizePackageNames ext ignoreList pkgNames))))"

definition buildConfig :: "externals \<Rightarrow> writtenConfig \<Rightarrow> string list \<Rightarrow> error + config" where
  "buildConfig ext json pkgNames =
     (case configLinked ext json pkgNames of
        Inl e \<Rightarrow> Inl e
      | Inr linked' \<Rightarrow>
     (case configIgnore ext json pkgNames of
        Inl e \<Rightarrow> Inl e
      | Inr ignore' \<Rightarrow>
     (case experimentalFlag json ''onlyUpdatePeerDependentsWhenOutOfRange'' of
        Inl e \<Rightarrow> Inl e
      | Inr onlyUpdate \<Rightarrow>
     (case experimentalFlag json ''useCalculatedVersionForSnapshots'' of
        Inl e \<Rightarrow> Inl e
      | Inr useCalculated \<Rightarrow>
          Inr \<lparr>config.changelog =
                 getNormalisedChangelogOption
                   (case writtenConfig.changelog json of
                      None \<Rightarrow> JStr ''@changesets/cli/changelog''
                    | Some v \<Rightarrow> v),
               config.access =
                 (case normalizedAccess json of None \<Rightarrow> JStr ''restricted'' | Some v \<Rightarrow> v),
               config.commit =
                 (case writtenConfig.commit json of None \<Rightarrow> JBool False | Some v \<Rightarrow> v),
               config.linked = linked',
               config.baseBranch =
                 (case writtenConfig.baseBranch json of None \<Rightarrow> JStr ''master'' | Some v \<Rightarrow> v),
               config.updateInternalDependencies =
                 (case writtenConfig.updateInternalDependencies json of
                    None \<Rightarrow> JStr ''patch''
                  | Some v \<Rightarrow> v),
               config.ignore = ignore',
               config.bumpVersionsWithWorkspaceProtocolOnly =
                 (writtenConfig.bumpVersionsWithWorkspaceProtocolOnly json = Some (JBool True)),
               config.experimentalUnsafeOptions_WILL_CHANGE_IN_PATCH =
                 \<lparr>onlyUpdatePeerDependentsWhenOutOfRange = onlyUpdate,
                  useCalculatedVersionForSnapshots = useCalculated\<rparr>\<rparr>))))"

text \<open>The function: the checks, the exception of lines 319 to 324 when a message was
  collected, and the configuration object otherwise.\<close>

definition parse :: "externals \<Rightarrow> writtenConfig \<Rightarrow> packages \<Rightarrow> error + config" where
  "parse ext json pkgs =
     (case collectMessages ext json pkgs of
        Inl e \<Rightarrow> Inl e
      | Inr messages \<Rightarrow>
          if messages \<noteq> [] then Inl (ValidationError (validationMessage messages))
          else buildConfig ext json (pkgNamesOf pkgs))"

text \<open>Lines 382 to 394.\<close>

definition fakePackage :: package where
  "fakePackage =
     \<lparr>dir = '''',
      packageJson = \<lparr>name = '''', version = '''', dependencies = None, devDependencies = None,
                     peerDependencies = None, optionalDependencies = None\<rparr>\<rparr>"

definition defaultConfig :: "externals \<Rightarrow> error + config" where
  "defaultConfig ext =
     parse ext defaultWrittenConfig \<lparr>tool = ''root'', root = fakePackage, packages = [fakePackage]\<rparr>"

section \<open>Example inputs\<close>

text \<open>
  The manifest of a package \<open>app\<close> with the declared ranges of the spec's example
  scenarios, the store that holds it at address 0, a release of \<open>app\<close>, and a list of
  updates that names every dependency of the manifest but \<open>react\<close>.
\<close>

definition exampleManifest :: packageJSON where
  "exampleManifest =
     \<lparr>name = ''app'', version = ''1.0.0'',
      dependencies = Some [(''lodash'', ''^3.0.0''), (''pkg-c'', ''*''), (''pkg-l'', ''link:'')],
      devDependencies = Some [(''pkg-a'', ''workspace:~1.2.0''), (''pkg-w'', ''workspace:*'')],
      peerDependencies = Some [(''react'', ''^16.8.0'')], optionalDependencies = None\<rparr>"

definition exampleHeap :: "unit heap" where
  "exampleHeap = Map.empty(0 \<mapsto> exampleManifest)"

definition exampleRelease :: release where
  "exampleRelease = \<lparr>newVersion = ''1.1.0'', release.packageJson = 0\<rparr>"

definition exampleUpdates :: "(string \<times> string) list" where
  "exampleUpdates = [(''lodash'', ''4.0.0''), (''pkg-a'', ''2.0.0''), (''pkg-c'', ''3.0.0''),
                     (''pkg-l'', ''5.0.0''), (''pkg-w'', ''6.0.0'')]"

text \<open>The manifest of the spec's third scenario.\<close>

definition fileManifest :: packageJSON where
  "fileManifest =
     \<lparr>name = ''app'', version = ''1.0.0'',
      dependencies = Some [(''pkg-b'', ''file:../pkg-b'')],
      devDependencies = None, peerDependencies = None, optionalDependencies = None\<rparr>"

text \<open>
  Collaborators for the examples of \<open>parse\<close>. The glob library is outside the repository;
  \<open>globMatch\<close> is its matching on the patterns the examples use, literal characters and
  \<open>*\<close> for a run of characters other than \<open>/\<close>, and \<open>micromatch\<close> keeps the names that
  match one of the patterns.
\<close>

fun globMatch :: "string \<Rightarrow> string \<Rightarrow> bool" where
  "globMatch [] str = (str = [])"
| "globMatch (p # ps) str =
     (if p = CHR ''*''
      then (globMatch ps str \<or>
            (case str of [] \<Rightarrow> False | c # cs \<Rightarrow> c \<noteq> CHR ''/'' \<and> globMatch (p # ps) cs))
      else (case str of [] \<Rightarrow> False | c # cs \<Rightarrow> c = p \<and> globMatch ps cs))"

text \<open>A manifest declares a dependency on a name when one of its four blocks has it.\<close>

definition declaresDependency :: "packageJSON \<Rightarrow> string \<Rightarrow> bool" where
  "declaresDependency pj name' =
     list_ex (\<lambda>type. case getDeps type pj of None \<Rightarrow> False | Some deps \<Rightarrow> List.member (map fst deps) name')
       DEPENDENCY_TYPES"

text \<open>
  Modelled from the spec: the Dependents Graph (the package
  \<open>@changesets/get-dependents-graph\<close>, whose source is not among the files) maps each
  package of the graph to the packages of the graph that declare a dependency on it, the
  direct dependents only. It is the graph of the examples; \<open>parse\<close> is proved for every
  graph.
\<close>

definition buildDependentsGraph :: "packages \<Rightarrow> string \<Rightarrow> string list option" where
  "buildDependentsGraph pkgs name' =
     (if List.member (name (package.packageJson (root pkgs)) # pkgNamesOf pkgs) name'
      then Some (map (\<lambda>p. name (package.packageJson p))
                  (filter (\<lambda>p. declaresDependency (package.packageJson p) name') (packages.packages pkgs)))
      else None)"

text \<open>\<open>JSON.stringify\<close> on \<open>null\<close> and the booleans; the examples print no other value.\<close>

fun exampleStringify :: "json \<Rightarrow> string" where
  "exampleStringify JNull = ''null''"
| "exampleStringify (JBool True) = ''true''"
| "exampleStringify (JBool False) = ''false''"
| "exampleStringify v = []"

definition exampleExternals :: externals where
  "exampleExternals =
     \<lparr>micromatch = (\<lambda>list patterns. filter (\<lambda>str. list_ex (\<lambda>pattern. globMatch pattern str) patterns) list),
      isMatch = (\<lambda>str pattern. globMatch pattern str),
      getDependentsGraph = buildDependentsGraph,
      stringify = exampleStringify\<rparr>"

text \<open>The raw configuration \<open>{}\<close>, and a graph of two packages in which \<open>app\<close> depends on
  \<open>pkg-a\<close>.\<close>

definition emptyWrittenConfig :: writtenConfig where
  "emptyWrittenConfig =
     \<lparr>writtenConfig.changelog = None, writtenConfig.access = None, writtenConfig.commit = None,
      writtenConfig.linked = None, writtenConfig.baseBranch = None,
      writtenConfig.updateInternalDependencies = None, writtenConfig.ignore = None,
      writtenConfig.bumpVersionsWithWorkspaceProtocolOnly = None,
      writtenConfig.experimentalUnsafeOptions_WILL_CHANGE_IN_PATCH = None\<rparr>"

definition examplePackage :: "string \<Rightarrow> deps option \<Rightarrow> package" where
  "examplePackage name' deps =
     \<lparr>dir = ''packages/'' @ name',
      packageJson = \<lparr>name = name', version = ''1.0.0'', dependencies = deps, devDependencies = None,
                     peerDependencies = None, optionalDependencies = None\<rparr>\<rparr>"

definition examplePackages :: packages where
  "examplePackages =
     \<lparr>tool = ''yarn'', root = examplePackage ''monorepo'' None,
      packages = [examplePackage ''pkg-a'' None,
                  examplePackage ''app'' (Some [(''pkg-a'', ''^1.0.0'')])]\<rparr>"

text \<open>The graph of the spec's sixth scenario: three packages, none depending on another.\<close>

definition linkedPackages :: packages where
  "linkedPackages =
     \<lparr>tool = ''yarn'', root = examplePackage ''monorepo'' None,
      packages = [examplePackage ''pkg-1'' None, examplePackage ''pkg-2'' None,
                  examplePackage ''pkg-3'' None]\<rparr>"

text \<open>A raw configuration that sets \<open>linked\<close> only, to the given groups.\<close>

definition linkedConfig :: "string list list \<Rightarrow> writtenConfig" where
  "linkedConfig groups =
     emptyWrittenConfig\<lparr>writtenConfig.linked := Some (JArr (map (\<lambda>g. JArr (map JStr g)) groups))\<rparr>"

text \<open>The configuration with every field at its documented default.\<close>

definition fallbackConfig :: config where
  "fallbackConfig =
     \<lparr>config.changelog = JArr [JStr ''@changesets/cli/changelog'', JNull],
      config.access = JStr ''restricted'',
      config.commit = JBool False,
      config.linked = [],
      config.baseBranch = JStr ''master'',
      config.updateInternalDependencies = JStr ''patch'',
      config.ignore = [],
      config.bumpVersionsWithWorkspaceProtocolOnly = False,
      config.experimentalUnsafeOptions_WILL_CHANGE_IN_PATCH =
        \<lparr>onlyUpdatePeerDependentsWhenOutOfRange = JBool False,
         useCalculatedVersionForSnapshots = JBool False\<rparr>\<rparr>"

section \<open>Properties of versionPackage\<close>

lemma updateDeps_keys:
  "map fst (snd (updateDeps R C ups d)) = map fst d"
proof (induction ups arbitrary: d)
  case Nil
  show ?case by simp
next
  case (Cons u ups)
  obtain n v where u: "u = (n, v)" by (cases u)
  show ?case
  proof (cases "map_of d n")
    case None
    then show ?thesis using Cons u by simp
  next
    case (Some cur)
    then have "n \<in> set (map fst d)" by (metis map_of_eq_None_iff option.distinct(1) set_map)
    then have k: "map fst (AList.update n r d) = map fst d" for r
      by (simp add: update_keys)
    show ?thesis using Cons u Some k
      by (auto split: sum.splits option.splits)
  qed
qed

lemma updateDeps_other:
  "k \<notin> fst ` set ups \<Longrightarrow> map_of (snd (updateDeps R C ups d)) k = map_of d k"
proof (induction ups arbitrary: d)
  case Nil
  show ?case by simp
next
  case (Cons u ups)
  obtain n v where u: "u = (n, v)" by (cases u)
  from Cons.prems u have nk: "n \<noteq> k" and rest: "k \<notin> fst ` set ups" by auto
  show ?case using Cons.IH[OF rest] u nk
    by (auto split: sum.splits option.splits simp: update_conv')
qed

lemma updateDeps_stable:
  assumes "\<And>v. rewrite R C r v = Inr r" and "map_of d k = Some r"
  shows "map_of (snd (updateDeps R C ups d)) k = Some r"
  using assms(2)
proof (induction ups arbitrary: d)
  case Nil
  then show ?case by simp
next
  case (Cons u ups)
  obtain n v where u: "u = (n, v)" by (cases u)
  show ?case
  proof (cases "n = k")
    case True
    have "rewrite R C r v = Inr r" by (rule assms(1))
    then show ?thesis using Cons u True
      by (auto simp: rewrite_def update_conv' split: sum.splits option.splits)
  next
    case False
    then show ?thesis using Cons u
      by (auto split: sum.splits option.splits simp: update_conv')
  qed
qed

lemma getDeps_setDeps: "getDeps t (setDeps t' d pj) = (if t = t' then Some d else getDeps t pj)"
  by (cases t; cases t') simp_all

lemma setDeps_fields:
  "name (setDeps t d pj) = name pj" "version (setDeps t d pj) = version pj"
  "packageJSON.more (setDeps t d pj) = packageJSON.more pj"
  by (cases t; simp)+

lemma entry_setDeps:
  "entry (setDeps t' d pj) t k = (if t = t' then map_of d k else entry pj t k)"
  by (simp add: entry_def getDeps_setDeps)

lemma updateTypes_fields:
  "name (snd (updateTypes R C ups ts pj)) = name pj \<and>
   version (snd (updateTypes R C ups ts pj)) = version pj \<and>
   packageJSON.more (snd (updateTypes R C ups ts pj)) = packageJSON.more pj"
  by (induction ts arbitrary: pj) (auto split: option.splits prod.splits simp: setDeps_fields)

lemma updateTypes_keys:
  "map_option (map fst) (getDeps t (snd (updateTypes R C ups ts pj))) = map_option (map fst) (getDeps t pj)"
proof (induction ts arbitrary: pj)
  case Nil
  show ?case by simp
next
  case (Cons t' ts)
  show ?case
  proof (cases "getDeps t' pj")
    case None
    then show ?thesis using Cons by simp
  next
    case (Some d)
    obtain e d' where r: "updateDeps R C ups d = (e, d')" by (cases "updateDeps R C ups d")
    then have k: "map fst d' = map fst d" using updateDeps_keys[of R C ups d] by simp
    have "map_option (map fst) (getDeps t (setDeps t' d' pj)) = map_option (map fst) (getDeps t pj)"
      using Some k by (simp add: getDeps_setDeps)
    then show ?thesis using Some r Cons[of "setDeps t' d' pj"]
      by (cases e) simp_all
  qed
qed

lemma updateTypes_other:
  assumes "k \<notin> fst ` set ups"
  shows "entry (snd (updateTypes R C ups ts pj)) t k = entry pj t k"
proof (induction ts arbitrary: pj)
  case Nil
  show ?case by simp
next
  case (Cons t' ts)
  show ?case
  proof (cases "getDeps t' pj")
    case None
    then show ?thesis using Cons by simp
  next
    case (Some d)
    obtain e d' where r: "updateDeps R C ups d = (e, d')" by (cases "updateDeps R C ups d")
    then have k: "map_of d' k = map_of d k" using updateDeps_other[OF assms, of R C d] by simp
    have "entry (setDeps t' d' pj) t k = entry pj t k"
      using Some k by (simp add: entry_setDeps) (simp add: entry_def)
    then show ?thesis using Some r Cons[of "setDeps t' d' pj"]
      by (cases e) simp_all
  qed
qed

lemma updateTypes_stable:
  assumes "\<And>v. rewrite R C r v = Inr r"
  shows "entry pj t k = Some r \<Longrightarrow> entry (snd (updateTypes R C ups ts pj)) t k = Some r"
proof (induction ts arbitrary: pj)
  case Nil
  then show ?case by simp
next
  case (Cons t' ts)
  show ?case
  proof (cases "getDeps t' pj")
    case None
    then show ?thesis using Cons by simp
  next
    case (Some d)
    obtain e d' where r: "updateDeps R C ups d = (e, d')" by (cases "updateDeps R C ups d")
    have "entry (setDeps t' d' pj) t k = Some r"
    proof (cases "t = t'")
      case True
      then have "map_of d k = Some r" using Cons.prems Some by (simp add: entry_def)
      then have "map_of d' k = Some r" using updateDeps_stable[OF assms, of d k ups] r by simp
      then show ?thesis using True by (simp add: entry_setDeps)
    next
      case False
      then show ?thesis using Cons.prems by (simp add: entry_setDeps)
    qed
    then show ?thesis using Some r Cons.IH[of "setDeps t' d' pj"]
      by (cases e) simp_all
  qed
qed

lemma versionPackage_store:
  assumes "h (release.packageJson release) = Some pj"
  shows "snd (versionPackage R C release ups h) =
         h(release.packageJson release \<mapsto> snd (updateTypes R C ups DEPENDENCY_TYPES (pj\<lparr>version := newVersion release\<rparr>)))"
  using assms by (simp add: versionPackage_def split: prod.splits option.splits)

lemma versionPackage_result:
  assumes "h (release.packageJson release) = Some pj"
  shows "fst (versionPackage R C release ups h) =
         (case fst (updateTypes R C ups DEPENDENCY_TYPES (pj\<lparr>version := newVersion release\<rparr>)) of
            None \<Rightarrow> Inr release | Some e \<Rightarrow> Inl e)"
  using assms by (simp add: versionPackage_def split: prod.splits option.splits)

lemma entry_version: "entry (pj\<lparr>version := x\<rparr>) t k = entry pj t k"
  by (cases t) (simp_all add: entry_def)

lemma versionPackage_stable:
  assumes "\<And>v. rewrite R C r v = Inr r" "h (release.packageJson release) = Some pj" "entry pj t k = Some r"
  shows "\<exists>pj'. snd (versionPackage R C release ups h) (release.packageJson release) = Some pj' \<and> entry pj' t k = Some r"
proof -
  have "entry (snd (updateTypes R C ups DEPENDENCY_TYPES (pj\<lparr>version := newVersion release\<rparr>))) t k = Some r"
    using assms(3) by (intro updateTypes_stable[OF assms(1)]) (simp add: entry_version)
  moreover have "snd (versionPackage R C release ups h) (release.packageJson release) =
      Some (snd (updateTypes R C ups DEPENDENCY_TYPES (pj\<lparr>version := newVersion release\<rparr>)))"
    using assms(2) by (simp add: versionPackage_store[where pj = pj])
  ultimately show ?thesis by simp
qed

lemma example_run:
  "versionPackage exampleRange getVersionRangeType exampleRelease exampleUpdates exampleHeap =
     (Inr exampleRelease,
      exampleHeap(0 \<mapsto> \<lparr>name = ''app'', version = ''1.1.0'',
      dependencies = Some [(''lodash'', ''^4.0.0''), (''pkg-c'', ''*''), (''pkg-l'', ''link:'')],
      devDependencies = Some [(''pkg-a'', ''workspace:~2.0.0''), (''pkg-w'', ''workspace:*'')],
      peerDependencies = Some [(''react'', ''^16.8.0'')], optionalDependencies = None\<rparr>))"
  by (simp add: versionPackage_def exampleHeap_def exampleRelease_def exampleManifest_def
      exampleUpdates_def DEPENDENCY_TYPES_def newNewRange_def exampleRange_def startsWith_def
      getVersionRangeType_def)

lemma rewrite_skip:
  "newNewRange R C r v = Inr None \<Longrightarrow> rewrite R C r v = Inr r"
  by (simp add: rewrite_def)

lemma updateDeps_kept:
  assumes "\<And>v x. newNewRange R C r v \<noteq> Inr (Some x)" and "map_of d k = Some r"
  shows "map_of (snd (updateDeps R C ups d)) k = Some r"
  using assms(2)
proof (induction ups arbitrary: d)
  case Nil
  then show ?case by simp
next
  case (Cons u ups)
  obtain n v where u: "u = (n, v)" by (cases u)
  show ?case
  proof (cases "n = k")
    case True
    have "newNewRange R C r v \<noteq> Inr (Some x)" for x by (rule assms(1))
    then show ?thesis using Cons u True
      by (auto split: sum.splits option.splits)
  next
    case False
    then show ?thesis using Cons u
      by (auto split: sum.splits option.splits simp: update_conv')
  qed
qed

lemma updateTypes_kept:
  assumes "\<And>v x. newNewRange R C r v \<noteq> Inr (Some x)"
  shows "entry pj t k = Some r \<Longrightarrow> entry (snd (updateTypes R C ups ts pj)) t k = Some r"
proof (induction ts arbitrary: pj)
  case Nil
  then show ?case by simp
next
  case (Cons t' ts)
  show ?case
  proof (cases "getDeps t' pj")
    case None
    then show ?thesis using Cons by simp
  next
    case (Some d)
    obtain e d' where r: "updateDeps R C ups d = (e, d')" by (cases "updateDeps R C ups d")
    have "entry (setDeps t' d' pj) t k = Some r"
    proof (cases "t = t'")
      case True
      then have "map_of d k = Some r" using Cons.prems Some by (simp add: entry_def)
      then have "map_of d' k = Some r" using updateDeps_kept[OF assms, of d k ups] r by simp
      then show ?thesis using True by (simp add: entry_setDeps)
    next
      case False
      then show ?thesis using Cons.prems by (simp add: entry_setDeps)
    qed
    then show ?thesis using Some r Cons.IH[of "setDeps t' d' pj"]
      by (cases e) simp_all
  qed
qed

lemma versionPackage_kept:
  assumes "\<And>v x. newNewRange R C r v \<noteq> Inr (Some x)"
      and "h (release.packageJson release) = Some pj" "entry pj t k = Some r"
  shows "\<exists>pj'. snd (versionPackage R C release ups h) (release.packageJson release) = Some pj' \<and>
               entry pj' t k = Some r"
proof -
  have "entry (snd (updateTypes R C ups DEPENDENCY_TYPES (pj\<lparr>version := newVersion release\<rparr>))) t k = Some r"
    using assms(3) by (intro updateTypes_kept[OF assms(1)]) (simp add: entry_version)
  moreover have "snd (versionPackage R C release ups h) (release.packageJson release) =
      Some (snd (updateTypes R C ups DEPENDENCY_TYPES (pj\<lparr>version := newVersion release\<rparr>)))"
    using assms(2) by (simp add: versionPackage_store[where pj = pj])
  ultimately show ?thesis by simp
qed

lemma updateDeps_raises:
  assumes "\<And>v. \<exists>e. newNewRange R C r v = Inl e"
  shows "map_of d k = Some r \<Longrightarrow> k \<in> fst ` set ups \<Longrightarrow> \<exists>e. fst (updateDeps R C ups d) = Some e"
proof (induction ups arbitrary: d)
  case Nil
  then show ?case by simp
next
  case (Cons u ups)
  obtain n v where u: "u = (n, v)" by (cases u)
  show ?case
  proof (cases "n = k")
    case True
    obtain e where "newNewRange R C r v = Inl e" using assms by blast
    then show ?thesis using Cons.prems(1) u True by simp
  next
    case False
    then have rest: "k \<in> fst ` set ups" using Cons.prems(2) u by auto
    show ?thesis
    proof (cases "map_of d n")
      case None
      then show ?thesis using Cons.IH[OF Cons.prems(1) rest] u by simp
    next
      case (Some cur)
      show ?thesis
      proof (cases "newNewRange R C cur v")
        case (Inl e)
        then show ?thesis using Some u by simp
      next
        case (Inr res)
        show ?thesis
        proof (cases res)
          case None
          then show ?thesis using Inr Some Cons.IH[OF Cons.prems(1) rest] u by simp
        next
          case (Some x)
          have "map_of (AList.update n x d) k = Some r"
            using Cons.prems(1) False by (simp add: update_conv')
          then show ?thesis using Inr Some \<open>map_of d n = Some cur\<close> Cons.IH[OF _ rest] u by simp
        qed
      qed
    qed
  qed
qed

lemma updateTypes_raises:
  assumes "\<And>v. \<exists>e. newNewRange R C r v = Inl e" and "k \<in> fst ` set ups"
  shows "entry pj t k = Some r \<Longrightarrow> t \<in> set ts \<Longrightarrow> \<exists>e. fst (updateTypes R C ups ts pj) = Some e"
proof (induction ts arbitrary: pj)
  case Nil
  then show ?case by simp
next
  case (Cons t' ts)
  show ?case
  proof (cases "getDeps t' pj")
    case None
    then have "t \<noteq> t'" using Cons.prems(1) by (auto simp: entry_def)
    then show ?thesis using None Cons by simp
  next
    case (Some d)
    obtain e d' where r: "updateDeps R C ups d = (e, d')" by (cases "updateDeps R C ups d")
    show ?thesis
    proof (cases e)
      case (Some err)
      then show ?thesis using \<open>getDeps t' pj = Some d\<close> r by simp
    next
      case None
      have ne: "t \<noteq> t'"
      proof
        assume "t = t'"
        then have "map_of d k = Some r" using Cons.prems(1) Some by (simp add: entry_def)
        then have "\<exists>e. fst (updateDeps R C ups d) = Some e"
          using assms(2) by (rule updateDeps_raises[OF assms(1)])
        then show False using r None by simp
      qed
      then have "entry (setDeps t' d' pj) t k = Some r" "t \<in> set ts"
        using Cons.prems by (simp_all add: entry_setDeps)
      then have "\<exists>e. fst (updateTypes R C ups ts (setDeps t' d' pj)) = Some e"
        by (rule Cons.IH)
      then show ?thesis using Some r None by simp
    qed
  qed
qed

lemma versionPackage_raises:
  assumes "\<And>v. \<exists>e. newNewRange R C r v = Inl e" and "k \<in> fst ` set ups"
      and "h (release.packageJson release) = Some pj" "entry pj t k = Some r"
  shows "\<exists>e. fst (versionPackage R C release ups h) = Inl e"
proof -
  have "t \<in> set DEPENDENCY_TYPES" by (cases t) (simp_all add: DEPENDENCY_TYPES_def)
  moreover have "entry (pj\<lparr>version := newVersion release\<rparr>) t k = Some r"
    using assms(4) by (simp add: entry_version)
  ultimately have "\<exists>e. fst (updateTypes R C ups DEPENDENCY_TYPES (pj\<lparr>version := newVersion release\<rparr>)) = Some e"
    by (intro updateTypes_raises[OF assms(1,2)])
  then show ?thesis
    using versionPackage_result[where h = h and release = release and pj = pj, of R C ups] assms(3)
    by auto
qed

lemma newNewRange_unskipped:
  assumes "startsWith r ''link:'' \<or> startsWith r ''file:''"
      and "\<not> List.member [''link:'', ''link:.'', ''file:'', ''file:.''] r"
  shows "newNewRange R C r v =
         (case R r of Inl e \<Rightarrow> Inl e
          | Inr n \<Rightarrow> if n \<noteq> [] then Inr (Some (C r @ v)) else Inr None)"
proof -
  have ne: "r \<noteq> []" using assms(1) by (auto simp: startsWith_def)
  have nw: "\<not> startsWith r ''workspace:''"
    using assms(1) by (cases r) (auto simp: startsWith_def)
  show ?thesis using ne nw assms(2) by (simp add: newNewRange_def split: sum.splits)
qed

text \<open>
  Claim C2, as amended. A declared range that is exactly \<open>link:\<close>, \<open>link:.\<close>, \<open>file:\<close> or
  \<open>file:.\<close> is never rewritten, for every new version, semver parser and classifier: the
  iteration leaves the slot as it is and does not raise; and after a whole run of
  \<open>versionPackage\<close>, for every store, release and update list, the slot still holds the
  range (even when the run raises on another slot). Every other range that begins with
  \<open>link:\<close> or \<open>file:\<close> is not skipped: the iteration hands it, as it is, to the semver
  parser and goes on as for any other range. When the parser rejects it, the iteration
  raises the parser's exception; the slot still holds the range after a whole run of
  \<open>versionPackage\<close>, and the run raises whenever an update names the slot.
\<close>

theorem protocol_pinned_rewrite:
  "(List.member [''link:'', ''link:.'', ''file:'', ''file:.''] r \<longrightarrow>
      rewrite Range' gvrt r v = Inr r \<and>
      (\<forall>h release ups pj t k.
         h (release.packageJson release) = Some pj \<and> entry pj t k = Some r \<longrightarrow>
         (\<exists>pj'. snd (versionPackage Range' gvrt release ups h) (release.packageJson release) = Some pj' \<and>
                entry pj' t k = Some r))) \<and>
   ((startsWith r ''link:'' \<or> startsWith r ''file:'') \<and>
    \<not> List.member [''link:'', ''link:.'', ''file:'', ''file:.''] r \<longrightarrow>
      rewrite Range' gvrt r v =
        (case Range' r of
           Inl e \<Rightarrow> Inl e
         | Inr n \<Rightarrow> if n \<noteq> [] then Inr (gvrt r @ v) else Inr r) \<and>
      (\<forall>e. Range' r = Inl e \<longrightarrow>
         rewrite Range' gvrt r v = Inl e \<and>
         (\<forall>h release ups pj t k.
            h (release.packageJson release) = Some pj \<and> entry pj t k = Some r \<longrightarrow>
            (\<exists>pj'. snd (versionPackage Range' gvrt release ups h) (release.packageJson release) = Some pj' \<and>
                   entry pj' t k = Some r) \<and>
            (k \<in> fst ` set ups \<longrightarrow>
               (\<exists>e'. fst (versionPackage Range' gvrt release ups h) = Inl e')))))"
proof -
  have exact: "rewrite Range' gvrt r v = Inr r \<and>
      (\<forall>h release ups pj t k.
         h (release.packageJson release) = Some pj \<and> entry pj t k = Some r \<longrightarrow>
         (\<exists>pj'. snd (versionPackage Range' gvrt release ups h) (release.packageJson release) = Some pj' \<and>
                entry pj' t k = Some r))"
    if m: "List.member [''link:'', ''link:.'', ''file:'', ''file:.''] r"
  proof -
    have skip: "rewrite Range' gvrt r w = Inr r" for w
      using m by (intro rewrite_skip) (simp add: newNewRange_def)
    show ?thesis
      using skip versionPackage_stable[of Range' gvrt r] by blast
  qed
  have path: "rewrite Range' gvrt r v =
        (case Range' r of
           Inl e \<Rightarrow> Inl e
         | Inr n \<Rightarrow> if n \<noteq> [] then Inr (gvrt r @ v) else Inr r) \<and>
      (\<forall>e. Range' r = Inl e \<longrightarrow>
         rewrite Range' gvrt r v = Inl e \<and>
         (\<forall>h release ups pj t k.
            h (release.packageJson release) = Some pj \<and> entry pj t k = Some r \<longrightarrow>
            (\<exists>pj'. snd (versionPackage Range' gvrt release ups h) (release.packageJson release) = Some pj' \<and>
                   entry pj' t k = Some r) \<and>
            (k \<in> fst ` set ups \<longrightarrow>
               (\<exists>e'. fst (versionPackage Range' gvrt release ups h) = Inl e'))))"
    if a: "(startsWith r ''link:'' \<or> startsWith r ''file:'') \<and>
           \<not> List.member [''link:'', ''link:.'', ''file:'', ''file:.''] r"
  proof -
    have n: "newNewRange Range' gvrt r w =
           (case Range' r of Inl e \<Rightarrow> Inl e
            | Inr n \<Rightarrow> if n \<noteq> [] then Inr (Some (gvrt r @ w)) else Inr None)" for w
      using a by (intro newNewRange_unskipped) simp_all
    have eq: "rewrite Range' gvrt r v =
        (case Range' r of
           Inl e \<Rightarrow> Inl e
         | Inr n \<Rightarrow> if n \<noteq> [] then Inr (gvrt r @ v) else Inr r)"
      by (simp add: rewrite_def n split: sum.splits)
    have raise: "newNewRange Range' gvrt r w = Inl e" if "Range' r = Inl e" for e w
      using that by (simp add: n)
    have kept: "\<exists>pj'. snd (versionPackage Range' gvrt release ups h) (release.packageJson release) = Some pj' \<and>
                entry pj' t k = Some r"
      if "Range' r = Inl e" "h (release.packageJson release) = Some pj" "entry pj t k = Some r"
      for e h release ups pj t k
      using that(2,3) by (intro versionPackage_kept[where r = r and pj = pj]) (simp_all add: raise[OF that(1)])
    have raises: "\<exists>e'. fst (versionPackage Range' gvrt release ups h) = Inl e'"
      if "Range' r = Inl e" "h (release.packageJson release) = Some pj" "entry pj t k = Some r"
         "k \<in> fst ` set ups"
      for e h release ups pj t k
      using that(2,3,4)
      by (intro versionPackage_raises[where r = r and pj = pj and t = t and k = k])
         (simp_all add: raise[OF that(1)])
    have slot: "rewrite Range' gvrt r v = Inl e" if "Range' r = Inl e" for e
      by (simp add: rewrite_def raise[OF that])
    show ?thesis using eq slot kept raises by blast
  qed
  show ?thesis using exact path by blast
qed

text \<open>The theorem at the range \<open>link:\<close> of the example manifest, and at the range
  \<open>file:../pkg-b\<close> of the spec's third scenario.\<close>

theorem protocol_pinned_rewrite_witness:
  "List.member [''link:'', ''link:.'', ''file:'', ''file:.''] ''link:'' \<and>
   rewrite exampleRange getVersionRangeType ''link:'' ''5.0.0'' = Inr ''link:'' \<and>
   exampleHeap (release.packageJson exampleRelease) = Some exampleManifest \<and>
   entry exampleManifest Dependencies ''pkg-l'' = Some ''link:'' \<and>
   (\<exists>pj'. snd (versionPackage exampleRange getVersionRangeType exampleRelease exampleUpdates exampleHeap)
            (release.packageJson exampleRelease) = Some pj' \<and>
          entry pj' Dependencies ''pkg-l'' = Some ''link:'') \<and>
   startsWith ''file:../pkg-b'' ''file:'' \<and>
   \<not> List.member [''link:'', ''link:.'', ''file:'', ''file:.''] ''file:../pkg-b'' \<and>
   exampleRange ''file:../pkg-b'' = Inl TypeError \<and>
   rewrite exampleRange getVersionRangeType ''file:../pkg-b'' ''9.9.9'' = Inl TypeError \<and>
   (Map.empty(0 \<mapsto> fileManifest)) (release.packageJson exampleRelease) = Some fileManifest \<and>
   entry fileManifest Dependencies ''pkg-b'' = Some ''file:../pkg-b'' \<and>
   ''pkg-b'' \<in> fst ` set [(''pkg-b'', ''9.9.9'')] \<and>
   (\<exists>pj'. snd (versionPackage exampleRange getVersionRangeType exampleRelease [(''pkg-b'', ''9.9.9'')]
               (Map.empty(0 \<mapsto> fileManifest))) (release.packageJson exampleRelease) = Some pj' \<and>
          entry pj' Dependencies ''pkg-b'' = Some ''file:../pkg-b'') \<and>
   (\<exists>e'. fst (versionPackage exampleRange getVersionRangeType exampleRelease [(''pkg-b'', ''9.9.9'')]
               (Map.empty(0 \<mapsto> fileManifest))) = Inl e')"
proof -
  have m: "List.member [''link:'', ''link:.'', ''file:'', ''file:.''] ''link:''" by simp
  have h: "exampleHeap (release.packageJson exampleRelease) = Some exampleManifest"
    by (simp add: exampleHeap_def exampleRelease_def)
  have e: "entry exampleManifest Dependencies ''pkg-l'' = Some ''link:''"
    by (simp add: entry_def exampleManifest_def)
  have s: "startsWith ''file:../pkg-b'' ''file:''" by (simp add: startsWith_def)
  have n: "\<not> List.member [''link:'', ''link:.'', ''file:'', ''file:.''] ''file:../pkg-b''" by simp
  have p: "exampleRange ''file:../pkg-b'' = Inl TypeError" by (simp add: exampleRange_def)
  have h': "(Map.empty(0 \<mapsto> fileManifest)) (release.packageJson exampleRelease) = Some fileManifest"
    by (simp add: exampleRelease_def)
  have e': "entry fileManifest Dependencies ''pkg-b'' = Some ''file:../pkg-b''"
    by (simp add: entry_def fileManifest_def)
  have k: "''pkg-b'' \<in> fst ` set [(''pkg-b'', ''9.9.9'')]" by simp
  note a = protocol_pinned_rewrite[of "''link:''" exampleRange getVersionRangeType "''5.0.0''"]
  note b = protocol_pinned_rewrite[of "''file:../pkg-b''" exampleRange getVersionRangeType "''9.9.9''"]
  have 1: "rewrite exampleRange getVersionRangeType ''link:'' ''5.0.0'' = Inr ''link:''"
    using a m by blast
  have 2: "\<exists>pj'. snd (versionPackage exampleRange getVersionRangeType exampleRelease exampleUpdates exampleHeap)
            (release.packageJson exampleRelease) = Some pj' \<and>
          entry pj' Dependencies ''pkg-l'' = Some ''link:''"
    using a m h e by blast
  have 3: "rewrite exampleRange getVersionRangeType ''file:../pkg-b'' ''9.9.9'' = Inl TypeError"
    using b s n p by blast
  have 4: "\<exists>pj'. snd (versionPackage exampleRange getVersionRangeType exampleRelease [(''pkg-b'', ''9.9.9'')]
               (Map.empty(0 \<mapsto> fileManifest))) (release.packageJson exampleRelease) = Some pj' \<and>
          entry pj' Dependencies ''pkg-b'' = Some ''file:../pkg-b''"
    using b s n p h' e' by blast
  have 5: "\<exists>e'. fst (versionPackage exampleRange getVersionRangeType exampleRelease [(''pkg-b'', ''9.9.9'')]
               (Map.empty(0 \<mapsto> fileManifest))) = Inl e'"
    using b s n p h' e' k by blast
  show ?thesis using m h e s n p h' e' k 1 2 3 4 5 by blast
qed

text \<open>
  Claim C2 as stated, for every range that begins with \<open>link:\<close> or \<open>file:\<close>, fails on the
  spec's third scenario: \<open>file:../pkg-b\<close> is none of the four texts of line 29, so it is
  handed to the semver parser, which throws, and \<open>versionPackage\<close> raises.
\<close>

theorem protocol_pinned_path_counterexample:
  "startsWith ''file:../pkg-b'' ''file:'' \<and>
   rewrite exampleRange getVersionRangeType ''file:../pkg-b'' ''9.9.9'' = Inl TypeError \<and>
   fst (versionPackage exampleRange getVersionRangeType exampleRelease [(''pkg-b'', ''9.9.9'')]
        (Map.empty(0 \<mapsto> fileManifest))) = Inl TypeError"
  by (simp add: versionPackage_def exampleRelease_def fileManifest_def rewrite_def
      DEPENDENCY_TYPES_def newNewRange_def exampleRange_def startsWith_def)

text \<open>
  Claim C7. A declared range whose semver form, after the workspace marker is stripped,
  normalises to the empty "any version" range is left unchanged, for every new version,
  semver parser and classifier: by one iteration, which does not raise, and by a whole run
  of \<open>versionPackage\<close> for every store, release and update list.
\<close>

theorem any_version_unchanged:
  assumes "Range' (if startsWith r ''workspace:'' then drop 10 r else r) = Inr []"
  shows "rewrite Range' gvrt r v = Inr r \<and>
         (\<forall>h release ups pj t k.
            h (release.packageJson release) = Some pj \<and> entry pj t k = Some r \<longrightarrow>
            (\<exists>pj'. snd (versionPackage Range' gvrt release ups h) (release.packageJson release) = Some pj' \<and>
                   entry pj' t k = Some r))"
proof -
  have skip: "rewrite Range' gvrt r w = Inr r" for w
    using assms by (intro rewrite_skip) (simp add: newNewRange_def Let_def)
  show ?thesis
    using skip versionPackage_stable[of Range' gvrt r] by blast
qed

text \<open>The theorem at the range \<open>workspace:*\<close> of the example manifest.\<close>

theorem any_version_unchanged_witness:
  "exampleRange (if startsWith ''workspace:*'' ''workspace:'' then drop 10 ''workspace:*'' else ''workspace:*'') = Inr [] \<and>
   rewrite exampleRange getVersionRangeType ''workspace:*'' ''6.0.0'' = Inr ''workspace:*'' \<and>
   exampleHeap (release.packageJson exampleRelease) = Some exampleManifest \<and>
   entry exampleManifest DevDependencies ''pkg-w'' = Some ''workspace:*'' \<and>
   (\<exists>pj'. snd (versionPackage exampleRange getVersionRangeType exampleRelease exampleUpdates exampleHeap)
            (release.packageJson exampleRelease) = Some pj' \<and>
          entry pj' DevDependencies ''pkg-w'' = Some ''workspace:*'')"
proof -
  have m: "exampleRange (if startsWith ''workspace:*'' ''workspace:'' then drop 10 ''workspace:*'' else ''workspace:*'') = Inr []"
    by (simp add: startsWith_def exampleRange_def)
  have h: "exampleHeap (release.packageJson exampleRelease) = Some exampleManifest"
    by (simp add: exampleHeap_def exampleRelease_def)
  have e: "entry exampleManifest DevDependencies ''pkg-w'' = Some ''workspace:*''"
    by (simp add: entry_def exampleManifest_def)
  from any_version_unchanged[where Range' = exampleRange and r = "''workspace:*''"
      and gvrt = getVersionRangeType and v = "''6.0.0''", OF m]
  show ?thesis using m h e by blast
qed

lemma isBareVersion_digit:
  assumes "isBareVersion v"
  obtains c vs where "v = c # vs" "isDigit c"
proof -
  from assms have "takeWhile isDigit v \<noteq> []" by (simp add: isBareVersion_def Let_def)
  then show ?thesis using that by (cases v) (auto split: if_splits)
qed

lemma getVersionRangeType_rebuilt:
  assumes "isBareVersion v"
  shows "getVersionRangeType (getVersionRangeType r @ v) = getVersionRangeType r"
proof -
  from assms obtain c vs where v: "v = c # vs" and c: "isDigit c" by (rule isBareVersion_digit)
  from c have notop: "\<not> isOperatorChar c" "c \<noteq> CHR ''^''" "c \<noteq> CHR ''~''"
    by (auto simp: isDigit_def isOperatorChar_def)
  have op: "\<not> isOperatorChar (CHR ''^'')" "\<not> isOperatorChar (CHR ''~'')"
    by (simp_all add: isOperatorChar_def)
  show ?thesis
  proof (cases "take 1 r = ''^'' \<or> take 1 r = ''~''")
    case True
    then show ?thesis by (auto simp: getVersionRangeType_def)
  next
    case False
    define p where "p = takeWhile isOperatorChar r"
    have g: "getVersionRangeType r = p" using False by (simp add: getVersionRangeType_def p_def)
    have allop: "\<And>x. x \<in> set p \<Longrightarrow> isOperatorChar x"
      unfolding p_def by (auto dest: set_takeWhileD)
    have "takeWhile isOperatorChar (p @ v) = p @ takeWhile isOperatorChar v"
      using allop by (rule takeWhile_append2)
    then have t: "takeWhile isOperatorChar (p @ v) = p"
      using notop(1) v by simp
    have hd: "hd (p @ v) \<noteq> CHR ''^'' \<and> hd (p @ v) \<noteq> CHR ''~''"
    proof (cases p)
      case Nil
      then show ?thesis using notop v by simp
    next
      case (Cons a as)
      then have "isOperatorChar a" using allop by simp
      then show ?thesis using Cons op by auto
    qed
    obtain y ys where pv: "p @ v = y # ys" using v by (cases "p @ v") simp_all
    have h: "take 1 (p @ v) \<noteq> ''^''" "take 1 (p @ v) \<noteq> ''~''"
      using hd unfolding pv by simp_all
    show ?thesis unfolding g using t h by (simp add: getVersionRangeType_def)
  qed
qed

text \<open>
  Claim C5. For every declared range that the semver parser accepts (after the workspace
  marker is stripped) and every valid bare version, the iteration returns, and the range
  the slot then holds has the range type of the declared one: a range without the
  workspace marker is classified as before, and a range with the marker still starts with
  it and, the marker stripped from both, is classified as before.
\<close>

theorem rewrite_preserves_range_type:
  assumes "isBareVersion v"
      and "Range' (if startsWith r ''workspace:'' then drop 10 r else r) = Inr n"
  shows "\<exists>r'. rewrite Range' getVersionRangeType r v = Inr r' \<and>
              (if startsWith r ''workspace:''
               then startsWith r' ''workspace:'' \<and>
                    getVersionRangeType (drop 10 r') = getVersionRangeType (drop 10 r)
               else getVersionRangeType r' = getVersionRangeType r)"
proof (cases "newNewRange Range' getVersionRangeType r v")
  case (Inl e)
  then show ?thesis using assms(2)
    by (auto simp: newNewRange_def Let_def split: if_splits)
next
  case (Inr res)
  show ?thesis
  proof (cases res)
    case None
    then show ?thesis using Inr by (simp add: rewrite_def)
  next
    case (Some r')
    show ?thesis
    proof (cases "startsWith r ''workspace:''")
      case True
      then have r': "r' = ''workspace:'' @ getVersionRangeType (drop 10 r) @ v"
        using Inr Some by (auto simp: newNewRange_def Let_def split: if_splits sum.splits)
      have "startsWith r' ''workspace:''" unfolding r' by (simp add: startsWith_def)
      moreover have "drop 10 r' = getVersionRangeType (drop 10 r) @ v" unfolding r' by simp
      ultimately show ?thesis using True Inr Some getVersionRangeType_rebuilt[OF assms(1)]
        by (simp add: rewrite_def)
    next
      case False
      then have r': "r' = getVersionRangeType r @ v"
        using Inr Some by (auto simp: newNewRange_def Let_def split: if_splits sum.splits)
      show ?thesis using False Inr Some getVersionRangeType_rebuilt[OF assms(1)]
        by (simp add: rewrite_def r')
    qed
  qed
qed

text \<open>The theorem on the spec's second scenario.\<close>

theorem rewrite_preserves_range_type_witness:
  "isBareVersion ''2.0.0'' \<and>
   exampleRange (if startsWith ''workspace:~1.2.0'' ''workspace:'' then drop 10 ''workspace:~1.2.0''
                 else ''workspace:~1.2.0'') = Inr ''>=1.2.0 <1.3.0'' \<and>
   rewrite exampleRange getVersionRangeType ''workspace:~1.2.0'' ''2.0.0'' = Inr ''workspace:~2.0.0'' \<and>
   getVersionRangeType ''~2.0.0'' = getVersionRangeType ''~1.2.0''"
proof -
  have v: "isBareVersion ''2.0.0''" by (simp add: isBareVersion_def isDigit_def)
  have p: "exampleRange (if startsWith ''workspace:~1.2.0'' ''workspace:'' then drop 10 ''workspace:~1.2.0''
                 else ''workspace:~1.2.0'') = Inr ''>=1.2.0 <1.3.0''"
    by (simp add: startsWith_def exampleRange_def)
  have r: "rewrite exampleRange getVersionRangeType ''workspace:~1.2.0'' ''2.0.0'' = Inr ''workspace:~2.0.0''"
    by (simp add: rewrite_def newNewRange_def startsWith_def exampleRange_def getVersionRangeType_def)
  from rewrite_preserves_range_type[where Range' = exampleRange and r = "''workspace:~1.2.0''"
      and v = "''2.0.0''", OF v p] r
  show ?thesis using v p by (simp add: startsWith_def)
qed

text \<open>
  Claim C3, as amended. \<open>versionPackage\<close> assigns in place: the store it leaves differs from
  the one it was given at the address of the release's manifest only. There \<open>version\<close> is
  the release's \<open>newVersion\<close>; \<open>name\<close> and the fields the function does not name are as
  before; every dependency block is present exactly if it was, with the same names in the
  same order; and every slot whose name is not among the updates holds what it held. When
  the function returns, it returns the release it was given, with the same manifest
  address.
\<close>

theorem versionPackage_frame:
  assumes "h (release.packageJson release) = Some pj"
  shows "\<exists>pj'. snd (versionPackage Range' gvrt release ups h) = h(release.packageJson release \<mapsto> pj') \<and>
               version pj' = newVersion release \<and>
               name pj' = name pj \<and>
               packageJSON.more pj' = packageJSON.more pj \<and>
               (\<forall>t. map_option (map fst) (getDeps t pj') = map_option (map fst) (getDeps t pj)) \<and>
               (\<forall>t k. k \<notin> fst ` set ups \<longrightarrow> entry pj' t k = entry pj t k) \<and>
               (fst (versionPackage Range' gvrt release ups h) = Inr release \<or>
                (\<exists>e. fst (versionPackage Range' gvrt release ups h) = Inl e))"
proof -
  define pj0 where "pj0 = pj\<lparr>version := newVersion release\<rparr>"
  define pj' where "pj' = snd (updateTypes Range' gvrt ups DEPENDENCY_TYPES pj0)"
  have store: "snd (versionPackage Range' gvrt release ups h) = h(release.packageJson release \<mapsto> pj')"
    unfolding pj'_def pj0_def using assms
    by (rule versionPackage_store[where h = h and release = release and pj = pj])
  have fields: "version pj' = newVersion release" "name pj' = name pj"
      "packageJSON.more pj' = packageJSON.more pj"
    unfolding pj'_def using updateTypes_fields[of Range' gvrt ups DEPENDENCY_TYPES pj0]
    by (simp_all add: pj0_def)
  have g0: "getDeps t pj0 = getDeps t pj" for t
    unfolding pj0_def by (cases t) simp_all
  have keys: "map_option (map fst) (getDeps t pj') = map_option (map fst) (getDeps t pj)" for t
    unfolding pj'_def using updateTypes_keys[of t Range' gvrt ups DEPENDENCY_TYPES pj0]
    by (simp add: g0)
  have other: "k \<notin> fst ` set ups \<Longrightarrow> entry pj' t k = entry pj t k" for t k
    unfolding pj'_def using updateTypes_other[of k ups Range' gvrt DEPENDENCY_TYPES pj0 t]
    by (simp add: pj0_def entry_version)
  have res: "fst (versionPackage Range' gvrt release ups h) = Inr release \<or>
             (\<exists>e. fst (versionPackage Range' gvrt release ups h) = Inl e)"
    using versionPackage_result[where h = h and release = release and pj = pj, of Range' gvrt ups] assms
    by (simp split: option.splits)
  show ?thesis using store fields keys other res by blast
qed

text \<open>The theorem on the example manifest, whose slot \<open>react\<close> no update names.\<close>

theorem versionPackage_frame_witness:
  "exampleHeap (release.packageJson exampleRelease) = Some exampleManifest \<and>
   (\<exists>pj'. snd (versionPackage exampleRange getVersionRangeType exampleRelease exampleUpdates exampleHeap)
            = exampleHeap(release.packageJson exampleRelease \<mapsto> pj') \<and>
          version pj' = ''1.1.0'' \<and> name pj' = ''app'' \<and>
          entry pj' PeerDependencies ''react'' = Some ''^16.8.0'')"
proof -
  have h: "exampleHeap (release.packageJson exampleRelease) = Some exampleManifest"
    by (simp add: exampleHeap_def exampleRelease_def)
  have k: "''react'' \<notin> fst ` set exampleUpdates"
    by (simp add: exampleUpdates_def)
  have e: "entry exampleManifest PeerDependencies ''react'' = Some ''^16.8.0''"
    by (simp add: entry_def exampleManifest_def)
  have f: "newVersion exampleRelease = ''1.1.0''" "name exampleManifest = ''app''"
    by (simp_all add: exampleRelease_def exampleManifest_def)
  from versionPackage_frame[where h = exampleHeap and release = exampleRelease
      and pj = exampleManifest and Range' = exampleRange and gvrt = getVersionRangeType
      and ups = exampleUpdates, OF h]
  obtain pj' where
    "snd (versionPackage exampleRange getVersionRangeType exampleRelease exampleUpdates exampleHeap)
       = exampleHeap(release.packageJson exampleRelease \<mapsto> pj')"
    "version pj' = newVersion exampleRelease" "name pj' = name exampleManifest"
    "\<forall>t k. k \<notin> fst ` set exampleUpdates \<longrightarrow> entry pj' t k = entry exampleManifest t k"
    by blast
  then show ?thesis using h k e f by metis
qed

text \<open>
  Claim C3 as stated fails: the manifest's own \<open>version\<close> is assigned, already with no
  update at all, and the store the function leaves is not the store it was given.
\<close>

theorem versionPackage_frame_counterexample:
  "map_option version (exampleHeap (release.packageJson exampleRelease)) = Some ''1.0.0'' \<and>
   map_option version
     (snd (versionPackage exampleRange getVersionRangeType exampleRelease [] exampleHeap)
        (release.packageJson exampleRelease)) = Some ''1.1.0'' \<and>
   snd (versionPackage exampleRange getVersionRangeType exampleRelease exampleUpdates exampleHeap) \<noteq> exampleHeap"
proof -
  have "snd (versionPackage exampleRange getVersionRangeType exampleRelease exampleUpdates exampleHeap) 0
        \<noteq> exampleHeap 0"
    by (simp add: example_run) (simp add: exampleHeap_def exampleManifest_def)
  then have "snd (versionPackage exampleRange getVersionRangeType exampleRelease exampleUpdates exampleHeap) \<noteq> exampleHeap"
    by metis
  then show ?thesis
    by (simp add: versionPackage_def exampleHeap_def exampleRelease_def exampleManifest_def
      DEPENDENCY_TYPES_def)
qed

section \<open>Properties of parse\<close>

lemma set_setAdd: "set (setAdd x s) = insert x (set s)"
  by (auto simp: setAdd_def)

lemma distinct_setAdd: "distinct s \<Longrightarrow> distinct (setAdd x s)"
  by (simp add: setAdd_def)

lemma foundLoop_found: "set (fst (foundLoop ns (f, d))) = set f \<union> set ns"
  by (induction ns arbitrary: f d) (simp_all add: set_setAdd)

lemma foundLoop_dup_mono: "set d \<subseteq> set (snd (foundLoop ns (f, d)))"
proof (induction ns arbitrary: f d)
  case Nil
  show ?case by simp
next
  case (Cons n ns)
  have "set d \<subseteq> set (if List.member f n then setAdd n d else d)"
    by (auto simp: set_setAdd)
  also have "\<dots> \<subseteq> set (snd (foundLoop ns (setAdd n f, if List.member f n then setAdd n d else d)))"
    by (rule Cons.IH)
  finally show ?case by simp
qed

lemma foundLoop_dup_seen: "set f \<inter> set ns \<subseteq> set (snd (foundLoop ns (f, d)))"
proof (induction ns arbitrary: f d)
  case Nil
  show ?case by simp
next
  case (Cons n ns)
  let ?d = "if List.member f n then setAdd n d else d"
  have ih: "set (setAdd n f) \<inter> set ns \<subseteq> set (snd (foundLoop ns (setAdd n f, ?d)))"
    by (rule Cons.IH)
  have mono: "set ?d \<subseteq> set (snd (foundLoop ns (setAdd n f, ?d)))"
    by (rule foundLoop_dup_mono)
  have here: "n \<in> set f \<Longrightarrow> n \<in> set ?d"
    by (simp add: set_setAdd)
  show ?case using ih mono here by (auto simp: set_setAdd)
qed

lemma foundLoop_distinct: "distinct d \<Longrightarrow> distinct (snd (foundLoop ns (f, d)))"
  by (induction ns arbitrary: f d) (simp_all add: distinct_setAdd)

lemma linkedLoop_step:
  "linkedLoop ext names (g # gs) (f, d, m) =
     linkedLoop ext names gs
       (fst (foundLoop (fst (normalizePackageNames ext g names)) (f, d)),
        snd (foundLoop (fst (normalizePackageNames ext g names)) (f, d)),
        m @ map linkedNonExistingMessage (snd (normalizePackageNames ext g names)))"
  by (simp split: prod.splits)

lemma linkedLoop_dup_mono:
  "set d \<subseteq> set (fst (snd (linkedLoop ext names gs (f, d, m))))"
proof (induction gs arbitrary: f d m)
  case Nil
  show ?case by simp
next
  case (Cons g gs)
  show ?case unfolding linkedLoop_step
    using foundLoop_dup_mono[of d "fst (normalizePackageNames ext g names)" f] Cons.IH
    by (meson subset_trans)
qed

lemma linkedLoop_distinct:
  "distinct d \<Longrightarrow> distinct (fst (snd (linkedLoop ext names gs (f, d, m))))"
proof (induction gs arbitrary: f d m)
  case Nil
  then show ?case by simp
next
  case (Cons g gs)
  show ?case unfolding linkedLoop_step
    by (rule Cons.IH) (rule foundLoop_distinct[OF Cons.prems])
qed

lemma linkedLoop_seen:
  "g \<in> set gs \<Longrightarrow>
   set f \<inter> set (fst (normalizePackageNames ext g names)) \<subseteq> set (fst (snd (linkedLoop ext names gs (f, d, m))))"
proof (induction gs arbitrary: f d m)
  case Nil
  then show ?case by simp
next
  case (Cons g' gs)
  let ?r = "fst (normalizePackageNames ext g' names)"
  let ?f = "fst (foundLoop ?r (f, d))" and ?d = "snd (foundLoop ?r (f, d))"
  let ?m = "m @ map linkedNonExistingMessage (snd (normalizePackageNames ext g' names))"
  show ?case
  proof (cases "g = g'")
    case True
    have "set f \<inter> set ?r \<subseteq> set ?d" by (rule foundLoop_dup_seen)
    also have "\<dots> \<subseteq> set (fst (snd (linkedLoop ext names gs (?f, ?d, ?m))))"
      by (rule linkedLoop_dup_mono)
    finally show ?thesis unfolding linkedLoop_step True .
  next
    case False
    then have "g \<in> set gs" using Cons.prems by simp
    then have "set ?f \<inter> set (fst (normalizePackageNames ext g names))
               \<subseteq> set (fst (snd (linkedLoop ext names gs (?f, ?d, ?m))))"
      by (rule Cons.IH)
    moreover have "set f \<subseteq> set ?f" by (simp add: foundLoop_found)
    ultimately show ?thesis unfolding linkedLoop_step by blast
  qed
qed

lemma linkedLoop_pairs:
  "i < j \<Longrightarrow> j < length gs \<Longrightarrow>
   set (fst (normalizePackageNames ext (gs ! i) names)) \<inter>
   set (fst (normalizePackageNames ext (gs ! j) names))
     \<subseteq> set (fst (snd (linkedLoop ext names gs (f, d, m))))"
proof (induction gs arbitrary: i j f d m)
  case Nil
  then show ?case by simp
next
  case (Cons g gs)
  let ?r = "fst (normalizePackageNames ext g names)"
  let ?f = "fst (foundLoop ?r (f, d))" and ?d = "snd (foundLoop ?r (f, d))"
  let ?m = "m @ map linkedNonExistingMessage (snd (normalizePackageNames ext g names))"
  from Cons.prems obtain j' where j: "j = Suc j'" "j' < length gs" by (cases j) auto
  show ?case
  proof (cases i)
    case 0
    have "gs ! j' \<in> set gs" using j by simp
    then have "set ?f \<inter> set (fst (normalizePackageNames ext (gs ! j') names))
               \<subseteq> set (fst (snd (linkedLoop ext names gs (?f, ?d, ?m))))"
      by (rule linkedLoop_seen)
    moreover have "set ?r \<subseteq> set ?f" by (simp add: foundLoop_found)
    ultimately show ?thesis unfolding linkedLoop_step using 0 j by auto
  next
    case (Suc i')
    then have "i' < j'" using Cons.prems j by simp
    then show ?thesis unfolding linkedLoop_step using Cons.IH[of i' j' ?f ?d ?m] j Suc by simp
  qed
qed

lemma linkedLoop_messages:
  "x \<in> set (snd (snd (linkedLoop ext names gs (f, d, m)))) \<Longrightarrow>
   x \<in> set m \<or> (\<exists>p. x = linkedNonExistingMessage p)"
proof (induction gs arbitrary: f d m)
  case Nil
  then show ?case by simp
next
  case (Cons g gs)
  from Cons.prems[unfolded linkedLoop_step] Cons.IH show ?case by fastforce
qed

lemma duplicatedMessage_inj: "duplicatedMessage a = duplicatedMessage b \<Longrightarrow> a = b"
  by (simp add: duplicatedMessage_def)

lemma duplicatedMessage_char4: "duplicatedMessage n ! 4 = CHR ''p''"
  by (simp add: duplicatedMessage_def)

lemma duplicatedMessage_char12: "duplicatedMessage n ! 12 = CHR 0x22"
  by (simp add: duplicatedMessage_def)

lemma duplicatedMessage_end: "rev (duplicatedMessage n) ! 2 = CHR ''c''"
  by (simp add: duplicatedMessage_def)

lemma dependentMessage_end: "rev (dependentMessage d p) ! 2 = CHR ''o''"
  by (simp add: dependentMessage_def)

lemma option_messages_char4:
  "changelogMessage s ! 4 = CHR 0x60" "accessMessage s ! 4 = CHR 0x60"
  "commitMessage s ! 4 = CHR 0x60" "baseBranchMessage s ! 4 = CHR 0x60"
  "linkedMessage s ! 4 = CHR 0x60" "updateInternalDependenciesMessage s ! 4 = CHR 0x60"
  "ignoreMessage s ! 4 = CHR 0x60"
  "onlyUpdatePeerDependentsWhenOutOfRangeMessage s ! 4 = CHR 0x60"
  "useCalculatedVersionForSnapshotsMessage s ! 4 = CHR 0x60"
  by (simp_all add: changelogMessage_def accessMessage_def commitMessage_def baseBranchMessage_def
      linkedMessage_def updateInternalDependenciesMessage_def ignoreMessage_def
      onlyUpdatePeerDependentsWhenOutOfRangeMessage_def useCalculatedVersionForSnapshotsMessage_def)

lemma nonExisting_messages_char12:
  "linkedNonExistingMessage p ! 12 = CHR ''o''" "ignoreNonExistingMessage p ! 12 = CHR ''o''"
  by (simp_all add: linkedNonExistingMessage_def ignoreNonExistingMessage_def)

lemma not_duplicatedMessage:
  "x ! 4 = CHR 0x60 \<or> x ! 12 = CHR ''o'' \<or> rev x ! 2 = CHR ''o'' \<Longrightarrow> x \<noteq> duplicatedMessage n"
  using duplicatedMessage_char4[of n] duplicatedMessage_char12[of n] duplicatedMessage_end[of n]
  by auto

lemma changelogMessages_kind: "x \<in> set (changelogMessages ext json) \<Longrightarrow> x ! 4 = CHR 0x60"
  by (auto simp: changelogMessages_def option_messages_char4 split: option.splits if_splits)

lemma accessMessages_kind: "x \<in> set (accessMessages ext json) \<Longrightarrow> x ! 4 = CHR 0x60"
  by (auto simp: accessMessages_def option_messages_char4 split: option.splits if_splits)

lemma commitMessages_kind: "x \<in> set (commitMessages ext json) \<Longrightarrow> x ! 4 = CHR 0x60"
  by (auto simp: commitMessages_def option_messages_char4 split: option.splits if_splits)

lemma baseBranchMessages_kind: "x \<in> set (baseBranchMessages ext json) \<Longrightarrow> x ! 4 = CHR 0x60"
  by (auto simp: baseBranchMessages_def option_messages_char4 split: option.splits if_splits)

lemma updateInternalDependenciesMessages_kind:
  "x \<in> set (updateInternalDependenciesMessages ext json) \<Longrightarrow> x ! 4 = CHR 0x60"
  by (auto simp: updateInternalDependenciesMessages_def option_messages_char4
      split: option.splits if_splits)

lemma dependentsMessages_kind:
  "x \<in> set (dependentsMessages ext pkgs ignoreList) \<Longrightarrow> rev x ! 2 = CHR ''o''"
  by (auto simp: dependentsMessages_def dependentMessage_end Let_def)

lemma ignoreMessages_kind:
  "x \<in> set (ignoreMessages ext json pkgs names) \<Longrightarrow>
   x ! 4 = CHR 0x60 \<or> x ! 12 = CHR ''o'' \<or> rev x ! 2 = CHR ''o''"
  by (auto simp: ignoreMessages_def option_messages_char4 nonExisting_messages_char12
      dest: dependentsMessages_kind split: option.splits if_splits)

lemma booleanOptionMessages_kind:
  "x \<in> set (booleanOptionMessages onlyUpdatePeerDependentsWhenOutOfRangeMessage ext v)
   \<Longrightarrow> x ! 4 = CHR 0x60"
  "x \<in> set (booleanOptionMessages useCalculatedVersionForSnapshotsMessage ext v)
   \<Longrightarrow> x ! 4 = CHR 0x60"
  by (auto simp: booleanOptionMessages_def option_messages_char4 split: option.splits if_splits)

lemma experimentalMessages_kind:
  "experimentalMessages ext json = Inr ms \<Longrightarrow> x \<in> set ms \<Longrightarrow> x ! 4 = CHR 0x60"
  by (auto simp: experimentalMessages_def dest: booleanOptionMessages_kind
      split: option.splits sum.splits)

lemma count_list_absent: "x \<notin> set xs \<Longrightarrow> count_list xs x = 0"
  by simp

lemma count_list_distinct: "distinct xs \<Longrightarrow> x \<in> set xs \<Longrightarrow> count_list xs x = 1"
  by (induction xs) (auto simp: count_list_absent)

lemma count_list_duplicated:
  assumes "distinct d" "n \<in> set d"
  shows "count_list (map duplicatedMessage d) (duplicatedMessage n) = 1"
proof -
  have "distinct (map duplicatedMessage d)"
    using assms(1) by (simp add: distinct_map inj_on_def) (blast dest: duplicatedMessage_inj)
  moreover have "duplicatedMessage n \<in> set (map duplicatedMessage d)"
    using assms(2) by simp
  ultimately show ?thesis by (rule count_list_distinct)
qed

lemma linkedMessages_count:
  assumes "writtenConfig.linked json = Some v" "arrayOfArraysOfStrings v = Some groups"
      and "i < j" "j < length groups"
      and "n \<in> set (micromatch ext names (groups ! i))" "n \<in> set (micromatch ext names (groups ! j))"
  shows "count_list (linkedMessages ext json names) (duplicatedMessage n) = 1"
proof -
  obtain f d m where loop: "linkedLoop ext names groups ([], [], []) = (f, d, m)"
    by (cases "linkedLoop ext names groups ([], [], [])") auto
  have msgs: "linkedMessages ext json names = m @ map duplicatedMessage d"
    using assms(1,2) loop by (simp add: linkedMessages_def)
  have "n \<in> set (fst (normalizePackageNames ext (groups ! i) names)) \<inter>
            set (fst (normalizePackageNames ext (groups ! j) names))"
    using assms(5,6) by (simp add: normalizePackageNames_def)
  then have "n \<in> set (fst (snd (linkedLoop ext names groups ([], [], []))))"
    using linkedLoop_pairs[OF assms(3,4), of ext names "[]" "[]" "[]"] by blast
  then have n: "n \<in> set d" using loop by simp
  have "distinct (fst (snd (linkedLoop ext names groups ([], [], []))))"
    by (rule linkedLoop_distinct) simp
  then have dist: "distinct d" using loop by simp
  have "x \<in> set m \<Longrightarrow> x \<noteq> duplicatedMessage n" for x
    using linkedLoop_messages[of x ext names groups "[]" "[]" "[]"] loop
    by (auto simp: nonExisting_messages_char12 intro!: not_duplicatedMessage)
  then have "count_list m (duplicatedMessage n) = 0"
    by (intro count_list_absent) blast
  then show ?thesis unfolding msgs using count_list_duplicated[OF dist n] by simp
qed

lemma collectMessages_count:
  assumes "collectMessages ext json pkgs = Inr messages"
  shows "count_list messages x =
         count_list (changelogMessages ext json) x + count_list (accessMessages ext json) x +
         count_list (commitMessages ext json) x + count_list (baseBranchMessages ext json) x +
         count_list (linkedMessages ext json (pkgNamesOf pkgs)) x +
         count_list (updateInternalDependenciesMessages ext json) x +
         count_list (ignoreMessages ext json pkgs (pkgNamesOf pkgs)) x +
         (case experimentalMessages ext json of Inl e \<Rightarrow> 0 | Inr ms \<Rightarrow> count_list ms x)"
  using assms by (auto simp: collectMessages_def split: sum.splits)

lemma collectMessages_duplicated:
  assumes "collectMessages ext json pkgs = Inr messages"
  shows "count_list messages (duplicatedMessage n) =
         count_list (linkedMessages ext json (pkgNamesOf pkgs)) (duplicatedMessage n)"
proof -
  let ?x = "duplicatedMessage n"
  have "count_list (changelogMessages ext json) ?x = 0"
    by (rule count_list_absent) (use changelogMessages_kind[of ?x ext json] not_duplicatedMessage[of ?x n] in blast)
  moreover have "count_list (accessMessages ext json) ?x = 0"
    by (rule count_list_absent) (use accessMessages_kind[of ?x ext json] not_duplicatedMessage[of ?x n] in blast)
  moreover have "count_list (commitMessages ext json) ?x = 0"
    by (rule count_list_absent) (use commitMessages_kind[of ?x ext json] not_duplicatedMessage[of ?x n] in blast)
  moreover have "count_list (baseBranchMessages ext json) ?x = 0"
    by (rule count_list_absent) (use baseBranchMessages_kind[of ?x ext json] not_duplicatedMessage[of ?x n] in blast)
  moreover have "count_list (updateInternalDependenciesMessages ext json) ?x = 0"
    by (rule count_list_absent) (use updateInternalDependenciesMessages_kind[of ?x ext json] not_duplicatedMessage[of ?x n] in blast)
  moreover have "count_list (ignoreMessages ext json pkgs (pkgNamesOf pkgs)) ?x = 0"
    by (rule count_list_absent)
       (use ignoreMessages_kind[of ?x ext json pkgs "pkgNamesOf pkgs"] not_duplicatedMessage[of ?x n] in blast)
  moreover have "(case experimentalMessages ext json of Inl e \<Rightarrow> 0 | Inr ms \<Rightarrow> count_list ms ?x) = 0"
  proof (cases "experimentalMessages ext json")
    case (Inl e)
    then show ?thesis by simp
  next
    case (Inr ms)
    have "count_list ms ?x = 0"
      by (rule count_list_absent)
         (use experimentalMessages_kind[OF Inr, of ?x] not_duplicatedMessage[of ?x n] in blast)
    then show ?thesis using Inr by simp
  qed
  ultimately show ?thesis unfolding collectMessages_count[OF assms] by simp
qed

lemma parse_Inr:
  assumes "parse ext json pkgs = Inr cfg"
  shows "collectMessages ext json pkgs = Inr []" "buildConfig ext json (pkgNamesOf pkgs) = Inr cfg"
  using assms by (auto simp: parse_def split: sum.splits if_splits)

lemma parse_rejects:
  assumes "collectMessages ext json pkgs = Inr messages" "messages \<noteq> []"
  shows "parse ext json pkgs = Inl (ValidationError (validationMessage messages))"
  using assms by (simp add: parse_def)

lemma linkedMessages_Nil:
  assumes "linkedMessages ext json names = []" "writtenConfig.linked json = Some v"
  obtains groups where "arrayOfArraysOfStrings v = Some groups"
    "fst (snd (linkedLoop ext names groups ([], [], []))) = []"
  using assms by (auto simp: linkedMessages_def split: option.splits prod.splits)

lemma config_linked_disjoint:
  assumes "parse ext json pkgs = Inr cfg" "i < j" "j < length (config.linked cfg)"
  shows "set (config.linked cfg ! i) \<inter> set (config.linked cfg ! j) = {}"
proof (cases "writtenConfig.linked json")
  case None
  then have "config.linked cfg = []"
    using parse_Inr(2)[OF assms(1)]
    by (auto simp: buildConfig_def configLinked_def split: sum.splits)
  then show ?thesis using assms(3) by simp
next
  case (Some v)
  let ?names = "pkgNamesOf pkgs"
  have "linkedMessages ext json ?names = []"
    using parse_Inr(1)[OF assms(1)] by (auto simp: collectMessages_def split: sum.splits)
  then obtain groups where g: "arrayOfArraysOfStrings v = Some groups"
    and d: "fst (snd (linkedLoop ext ?names groups ([], [], []))) = []"
    using Some by (rule linkedMessages_Nil)
  have l: "config.linked cfg = map (\<lambda>linkedGroup. fst (normalizePackageNames ext linkedGroup ?names)) groups"
    using parse_Inr(2)[OF assms(1)] Some g
    by (auto simp: buildConfig_def configLinked_def split: sum.splits)
  then have len: "j < length groups" using assms(3) by simp
  have "set (fst (normalizePackageNames ext (groups ! i) ?names)) \<inter>
        set (fst (normalizePackageNames ext (groups ! j) ?names)) \<subseteq> {}"
    using linkedLoop_pairs[OF assms(2) len, of ext ?names "[]" "[]" "[]"] d by simp
  then show ?thesis using l len assms(2) by simp
qed

text \<open>
  Claim C6. In a configuration that \<open>parse\<close> returns, no two of the resolved \<open>linked\<close>
  groups share a name. And when \<open>linked\<close> is an array of arrays of strings and a name is
  in the resolution of two of its groups, the collected messages hold the message that
  names it exactly once, however many groups share it, and \<open>parse\<close> throws the validation
  error that carries the messages.
\<close>

theorem linked_groups_disjoint:
  "(parse ext json pkgs = Inr cfg \<longrightarrow>
      (\<forall>i j. i < j \<and> j < length (config.linked cfg) \<longrightarrow>
             set (config.linked cfg ! i) \<inter> set (config.linked cfg ! j) = {})) \<and>
   (collectMessages ext json pkgs = Inr messages \<and>
    writtenConfig.linked json = Some v \<and> arrayOfArraysOfStrings v = Some groups \<and>
    k < l \<and> l < length groups \<and>
    n \<in> set (micromatch ext (pkgNamesOf pkgs) (groups ! k)) \<and>
    n \<in> set (micromatch ext (pkgNamesOf pkgs) (groups ! l)) \<longrightarrow>
      count_list messages (duplicatedMessage n) = 1 \<and>
      parse ext json pkgs = Inl (ValidationError (validationMessage messages)))"
proof (intro conjI impI allI)
  fix i j
  assume "parse ext json pkgs = Inr cfg" and "i < j \<and> j < length (config.linked cfg)"
  then show "set (config.linked cfg ! i) \<inter> set (config.linked cfg ! j) = {}"
    using config_linked_disjoint by blast
next
  assume a: "collectMessages ext json pkgs = Inr messages \<and>
    writtenConfig.linked json = Some v \<and> arrayOfArraysOfStrings v = Some groups \<and>
    k < l \<and> l < length groups \<and>
    n \<in> set (micromatch ext (pkgNamesOf pkgs) (groups ! k)) \<and>
    n \<in> set (micromatch ext (pkgNamesOf pkgs) (groups ! l))"
  then have c: "count_list messages (duplicatedMessage n) = 1"
    using collectMessages_duplicated[of ext json pkgs messages n]
      linkedMessages_count[of json v groups k l n ext "pkgNamesOf pkgs"] by simp
  then show "count_list messages (duplicatedMessage n) = 1" .
  from c have "messages \<noteq> []" by auto
  then show "parse ext json pkgs = Inl (ValidationError (validationMessage messages))"
    using a parse_rejects by blast
qed
lemma names_linked: "pkgNamesOf linkedPackages = [''pkg-1'', ''pkg-2'', ''pkg-3'']"
  by (simp add: pkgNamesOf_def linkedPackages_def examplePackage_def)

lemma names_example: "pkgNamesOf examplePackages = [''pkg-a'', ''app'']"
  by (simp add: pkgNamesOf_def examplePackages_def examplePackage_def)

lemmas parse_unfold =
  parse_def collectMessages_def experimentalMessages_def emptyWrittenConfig_def
  changelogMessages_def accessMessages_def normalizedAccess_def commitMessages_def
  baseBranchMessages_def linkedMessages_def updateInternalDependenciesMessages_def
  ignoreMessages_def normalizePackageNames_def dependentsMessages_def
  buildConfig_def configLinked_def configIgnore_def experimentalFlag_def fallbackConfig_def

lemma linked_ok_run:
  "parse exampleExternals (linkedConfig [[''pkg-1''], [''pkg-2'', ''pkg-3'']]) linkedPackages =
   Inr (fallbackConfig\<lparr>config.linked := [[''pkg-1''], [''pkg-2'', ''pkg-3'']]\<rparr>)"
  by (simp add: parse_unfold linkedConfig_def names_linked exampleExternals_def setAdd_def)

lemma linked_dup_run:
  "collectMessages exampleExternals (linkedConfig [[''pkg-1'', ''pkg-2''], [''pkg-2'', ''pkg-3'']]) linkedPackages =
   Inr [duplicatedMessage ''pkg-2'']"
  by (simp add: parse_unfold linkedConfig_def names_linked exampleExternals_def setAdd_def)

text \<open>The theorem on two disjoint groups, and on the spec's sixth scenario.\<close>

theorem linked_groups_disjoint_witness:
  "parse exampleExternals (linkedConfig [[''pkg-1''], [''pkg-2'', ''pkg-3'']]) linkedPackages =
     Inr (fallbackConfig\<lparr>config.linked := [[''pkg-1''], [''pkg-2'', ''pkg-3'']]\<rparr>) \<and>
   set [''pkg-1''] \<inter> set [''pkg-2'', ''pkg-3''] = {} \<and>
   collectMessages exampleExternals (linkedConfig [[''pkg-1'', ''pkg-2''], [''pkg-2'', ''pkg-3'']]) linkedPackages =
     Inr [duplicatedMessage ''pkg-2''] \<and>
   count_list [duplicatedMessage ''pkg-2''] (duplicatedMessage ''pkg-2'') = 1 \<and>
   parse exampleExternals (linkedConfig [[''pkg-1'', ''pkg-2''], [''pkg-2'', ''pkg-3'']]) linkedPackages =
     Inl (ValidationError (validationMessage [duplicatedMessage ''pkg-2'']))"
proof -
  let ?ok = "linkedConfig [[''pkg-1''], [''pkg-2'', ''pkg-3'']]"
  let ?dup = "linkedConfig [[''pkg-1'', ''pkg-2''], [''pkg-2'', ''pkg-3'']]"
  let ?groups = "[[''pkg-1'', ''pkg-2''], [''pkg-2'', ''pkg-3'']]"
  have l: "writtenConfig.linked ?dup = Some (JArr (map (\<lambda>g. JArr (map JStr g)) ?groups))"
    by (simp add: linkedConfig_def emptyWrittenConfig_def)
  have g: "arrayOfArraysOfStrings (JArr (map (\<lambda>g. JArr (map JStr g)) ?groups)) = Some ?groups"
    by simp
  have m: "''pkg-2'' \<in> set (micromatch exampleExternals (pkgNamesOf linkedPackages) (?groups ! 0))"
          "''pkg-2'' \<in> set (micromatch exampleExternals (pkgNamesOf linkedPackages) (?groups ! 1))"
    by (simp_all add: names_linked exampleExternals_def)
  have i: "(0::nat) < 1" "1 < length ?groups" by simp_all
  note t = linked_groups_disjoint[of exampleExternals ?ok linkedPackages
      "fallbackConfig\<lparr>config.linked := [[''pkg-1''], [''pkg-2'', ''pkg-3'']]\<rparr>"]
  note u = linked_groups_disjoint[of exampleExternals ?dup linkedPackages _ "[duplicatedMessage ''pkg-2'']"
      "JArr (map (\<lambda>g. JArr (map JStr g)) ?groups)" ?groups 0 1 "''pkg-2''"]
  have d: "set [''pkg-1''] \<inter> set [''pkg-2'', ''pkg-3''] = {}"
    using t linked_ok_run by simp
  show ?thesis
    using d u linked_ok_run linked_dup_run l g m i by simp
qed

lemma buildConfig_Inr:
  assumes "buildConfig ext json names = Inr cfg"
  shows "config.changelog cfg =
           getNormalisedChangelogOption
             (case writtenConfig.changelog json of None \<Rightarrow> JStr ''@changesets/cli/changelog'' | Some v \<Rightarrow> v)"
    and "config.access cfg = (case normalizedAccess json of None \<Rightarrow> JStr ''restricted'' | Some v \<Rightarrow> v)"
    and "config.commit cfg = (case writtenConfig.commit json of None \<Rightarrow> JBool False | Some v \<Rightarrow> v)"
    and "configLinked ext json names = Inr (config.linked cfg)"
    and "config.baseBranch cfg = (case writtenConfig.baseBranch json of None \<Rightarrow> JStr ''master'' | Some v \<Rightarrow> v)"
    and "config.updateInternalDependencies cfg =
           (case writtenConfig.updateInternalDependencies json of None \<Rightarrow> JStr ''patch'' | Some v \<Rightarrow> v)"
    and "configIgnore ext json names = Inr (config.ignore cfg)"
    and "config.bumpVersionsWithWorkspaceProtocolOnly cfg =
           (writtenConfig.bumpVersionsWithWorkspaceProtocolOnly json = Some (JBool True))"
    and "experimentalFlag json ''onlyUpdatePeerDependentsWhenOutOfRange'' =
           Inr (onlyUpdatePeerDependentsWhenOutOfRange (config.experimentalUnsafeOptions_WILL_CHANGE_IN_PATCH cfg))"
    and "experimentalFlag json ''useCalculatedVersionForSnapshots'' =
           Inr (useCalculatedVersionForSnapshots (config.experimentalUnsafeOptions_WILL_CHANGE_IN_PATCH cfg))"
  using assms by (auto simp: buildConfig_def split: sum.splits)

text \<open>
  Claim C9. In a configuration that \<open>parse\<close> returns, every field the raw configuration
  does not set has its documented default; an experimental flag has it when the
  experimental object is not set, and also when the object is set and does not set the
  flag. And \<open>defaultConfig\<close>, the default written configuration parsed against the graph
  of the one fake package, always succeeds: its result is the fallback configuration with
  \<open>ignore\<close> being what the glob library gives for no pattern, which is the empty list.
\<close>

theorem unset_fields_take_defaults:
  "(parse ext json pkgs = Inr cfg \<longrightarrow>
      (writtenConfig.changelog json = None \<longrightarrow>
         config.changelog cfg = JArr [JStr ''@changesets/cli/changelog'', JNull]) \<and>
      (writtenConfig.access json = None \<longrightarrow> config.access cfg = JStr ''restricted'') \<and>
      (writtenConfig.commit json = None \<longrightarrow> config.commit cfg = JBool False) \<and>
      (writtenConfig.linked json = None \<longrightarrow> config.linked cfg = []) \<and>
      (writtenConfig.baseBranch json = None \<longrightarrow> config.baseBranch cfg = JStr ''master'') \<and>
      (writtenConfig.updateInternalDependencies json = None \<longrightarrow>
         config.updateInternalDependencies cfg = JStr ''patch'') \<and>
      (writtenConfig.ignore json = None \<longrightarrow> config.ignore cfg = []) \<and>
      (writtenConfig.bumpVersionsWithWorkspaceProtocolOnly json = None \<longrightarrow>
         config.bumpVersionsWithWorkspaceProtocolOnly cfg = False) \<and>
      (writtenConfig.experimentalUnsafeOptions_WILL_CHANGE_IN_PATCH json = None \<longrightarrow>
         config.experimentalUnsafeOptions_WILL_CHANGE_IN_PATCH cfg =
           \<lparr>onlyUpdatePeerDependentsWhenOutOfRange = JBool False,
            useCalculatedVersionForSnapshots = JBool False\<rparr>) \<and>
      (writtenConfig.experimentalUnsafeOptions_WILL_CHANGE_IN_PATCH json = Some opts \<and>
       getProp opts ''onlyUpdatePeerDependentsWhenOutOfRange'' = Inr None \<longrightarrow>
         onlyUpdatePeerDependentsWhenOutOfRange
           (config.experimentalUnsafeOptions_WILL_CHANGE_IN_PATCH cfg) = JBool False) \<and>
      (writtenConfig.experimentalUnsafeOptions_WILL_CHANGE_IN_PATCH json = Some opts \<and>
       getProp opts ''useCalculatedVersionForSnapshots'' = Inr None \<longrightarrow>
         useCalculatedVersionForSnapshots
           (config.experimentalUnsafeOptions_WILL_CHANGE_IN_PATCH cfg) = JBool False)) \<and>
   defaultConfig ext = Inr (fallbackConfig\<lparr>config.ignore := micromatch ext [''''] []\<rparr>) \<and>
   (micromatch ext [''''] [] = [] \<longrightarrow> defaultConfig ext = Inr fallbackConfig)"
proof (intro conjI impI)
  assume p: "parse ext json pkgs = Inr cfg"
  note b = buildConfig_Inr[OF parse_Inr(2)[OF p]]
  show "config.changelog cfg = JArr [JStr ''@changesets/cli/changelog'', JNull]"
    if "writtenConfig.changelog json = None" using b(1) that by simp
  show "config.access cfg = JStr ''restricted''"
    if "writtenConfig.access json = None" using b(2) that by (simp add: normalizedAccess_def)
  show "config.commit cfg = JBool False"
    if "writtenConfig.commit json = None" using b(3) that by simp
  show "config.linked cfg = []"
    if "writtenConfig.linked json = None" using b(4) that by (simp add: configLinked_def)
  show "config.baseBranch cfg = JStr ''master''"
    if "writtenConfig.baseBranch json = None" using b(5) that by simp
  show "config.updateInternalDependencies cfg = JStr ''patch''"
    if "writtenConfig.updateInternalDependencies json = None" using b(6) that by simp
  show "config.ignore cfg = []"
    if "writtenConfig.ignore json = None" using b(7) that by (simp add: configIgnore_def)
  show "config.bumpVersionsWithWorkspaceProtocolOnly cfg = False"
    if "writtenConfig.bumpVersionsWithWorkspaceProtocolOnly json = None" using b(8) that by simp
  show "config.experimentalUnsafeOptions_WILL_CHANGE_IN_PATCH cfg =
           \<lparr>onlyUpdatePeerDependentsWhenOutOfRange = JBool False,
            useCalculatedVersionForSnapshots = JBool False\<rparr>"
    if "writtenConfig.experimentalUnsafeOptions_WILL_CHANGE_IN_PATCH json = None"
    using b(9,10) that by (cases "config.experimentalUnsafeOptions_WILL_CHANGE_IN_PATCH cfg")
      (simp add: experimentalFlag_def)
  show "onlyUpdatePeerDependentsWhenOutOfRange
          (config.experimentalUnsafeOptions_WILL_CHANGE_IN_PATCH cfg) = JBool False"
    if "writtenConfig.experimentalUnsafeOptions_WILL_CHANGE_IN_PATCH json = Some opts \<and>
        getProp opts ''onlyUpdatePeerDependentsWhenOutOfRange'' = Inr None"
    using b(9) that by (simp add: experimentalFlag_def)
  show "useCalculatedVersionForSnapshots
          (config.experimentalUnsafeOptions_WILL_CHANGE_IN_PATCH cfg) = JBool False"
    if "writtenConfig.experimentalUnsafeOptions_WILL_CHANGE_IN_PATCH json = Some opts \<and>
        getProp opts ''useCalculatedVersionForSnapshots'' = Inr None"
    using b(10) that by (simp add: experimentalFlag_def)
next
  show d: "defaultConfig ext = Inr (fallbackConfig\<lparr>config.ignore := micromatch ext [''''] []\<rparr>)"
    by (simp add: defaultConfig_def defaultWrittenConfig_def parse_unfold pkgNamesOf_def fakePackage_def)
  show "defaultConfig ext = Inr fallbackConfig" if "micromatch ext [''''] [] = []"
    unfolding d using that by (simp add: fallbackConfig_def)
qed

text \<open>The theorem on the raw configuration \<open>{}\<close>, on two raw configurations whose
  experimental object sets one flag only, and on the example collaborators.\<close>

theorem unset_fields_take_defaults_witness:
  "parse exampleExternals emptyWrittenConfig examplePackages = Inr fallbackConfig \<and>
   micromatch exampleExternals [''''] [] = [] \<and>
   defaultConfig exampleExternals = Inr fallbackConfig \<and>
   getProp (JObj [(''useCalculatedVersionForSnapshots'', JBool True)])
     ''onlyUpdatePeerDependentsWhenOutOfRange'' = Inr None \<and>
   parse exampleExternals
     (emptyWrittenConfig\<lparr>writtenConfig.experimentalUnsafeOptions_WILL_CHANGE_IN_PATCH :=
        Some (JObj [(''useCalculatedVersionForSnapshots'', JBool True)])\<rparr>) examplePackages =
     Inr (fallbackConfig\<lparr>config.experimentalUnsafeOptions_WILL_CHANGE_IN_PATCH :=
            \<lparr>onlyUpdatePeerDependentsWhenOutOfRange = JBool False,
             useCalculatedVersionForSnapshots = JBool True\<rparr>\<rparr>) \<and>
   getProp (JObj [(''onlyUpdatePeerDependentsWhenOutOfRange'', JBool True)])
     ''useCalculatedVersionForSnapshots'' = Inr None \<and>
   parse exampleExternals
     (emptyWrittenConfig\<lparr>writtenConfig.experimentalUnsafeOptions_WILL_CHANGE_IN_PATCH :=
        Some (JObj [(''onlyUpdatePeerDependentsWhenOutOfRange'', JBool True)])\<rparr>) examplePackages =
     Inr (fallbackConfig\<lparr>config.experimentalUnsafeOptions_WILL_CHANGE_IN_PATCH :=
            \<lparr>onlyUpdatePeerDependentsWhenOutOfRange = JBool True,
             useCalculatedVersionForSnapshots = JBool False\<rparr>\<rparr>)"
proof -
  let ?u = "JObj [(''useCalculatedVersionForSnapshots'', JBool True)]"
  let ?o = "JObj [(''onlyUpdatePeerDependentsWhenOutOfRange'', JBool True)]"
  let ?ju = "emptyWrittenConfig\<lparr>writtenConfig.experimentalUnsafeOptions_WILL_CHANGE_IN_PATCH := Some ?u\<rparr>"
  let ?jo = "emptyWrittenConfig\<lparr>writtenConfig.experimentalUnsafeOptions_WILL_CHANGE_IN_PATCH := Some ?o\<rparr>"
  let ?cu = "fallbackConfig\<lparr>config.experimentalUnsafeOptions_WILL_CHANGE_IN_PATCH :=
            \<lparr>onlyUpdatePeerDependentsWhenOutOfRange = JBool False,
             useCalculatedVersionForSnapshots = JBool True\<rparr>\<rparr>"
  let ?co = "fallbackConfig\<lparr>config.experimentalUnsafeOptions_WILL_CHANGE_IN_PATCH :=
            \<lparr>onlyUpdatePeerDependentsWhenOutOfRange = JBool True,
             useCalculatedVersionForSnapshots = JBool False\<rparr>\<rparr>"
  have p: "parse exampleExternals emptyWrittenConfig examplePackages = Inr fallbackConfig"
    by (simp add: parse_unfold)
  have m: "micromatch exampleExternals [''''] [] = []"
    by (simp add: exampleExternals_def)
  have gu: "getProp ?u ''onlyUpdatePeerDependentsWhenOutOfRange'' = Inr None" by simp
  have go: "getProp ?o ''useCalculatedVersionForSnapshots'' = Inr None" by simp
  have pu: "parse exampleExternals ?ju examplePackages = Inr ?cu"
    by (simp add: parse_unfold booleanOptionMessages_def)
  have po: "parse exampleExternals ?jo examplePackages = Inr ?co"
    by (simp add: parse_unfold booleanOptionMessages_def)
  have su: "writtenConfig.experimentalUnsafeOptions_WILL_CHANGE_IN_PATCH ?ju = Some ?u"
    by (simp add: emptyWrittenConfig_def)
  have so: "writtenConfig.experimentalUnsafeOptions_WILL_CHANGE_IN_PATCH ?jo = Some ?o"
    by (simp add: emptyWrittenConfig_def)
  note a = unset_fields_take_defaults[of exampleExternals emptyWrittenConfig examplePackages fallbackConfig]
  note b = unset_fields_take_defaults[of exampleExternals ?ju examplePackages ?cu ?u]
  note c = unset_fields_take_defaults[of exampleExternals ?jo examplePackages ?co ?o]
  have d: "defaultConfig exampleExternals = Inr fallbackConfig" using a m by blast
  have fu: "onlyUpdatePeerDependentsWhenOutOfRange
              (config.experimentalUnsafeOptions_WILL_CHANGE_IN_PATCH ?cu) = JBool False"
    using b pu su gu by blast
  have fo: "useCalculatedVersionForSnapshots
              (config.experimentalUnsafeOptions_WILL_CHANGE_IN_PATCH ?co) = JBool False"
    using c po so go by blast
  show ?thesis using p m d gu go pu po fu fo by blast
qed

lemma messages_bump:
  "changelogMessages ext (json\<lparr>writtenConfig.bumpVersionsWithWorkspaceProtocolOnly := v\<rparr>) =
     changelogMessages ext json"
  "accessMessages ext (json\<lparr>writtenConfig.bumpVersionsWithWorkspaceProtocolOnly := v\<rparr>) =
     accessMessages ext json"
  "commitMessages ext (json\<lparr>writtenConfig.bumpVersionsWithWorkspaceProtocolOnly := v\<rparr>) =
     commitMessages ext json"
  "baseBranchMessages ext (json\<lparr>writtenConfig.bumpVersionsWithWorkspaceProtocolOnly := v\<rparr>) =
     baseBranchMessages ext json"
  "linkedMessages ext (json\<lparr>writtenConfig.bumpVersionsWithWorkspaceProtocolOnly := v\<rparr>) names =
     linkedMessages ext json names"
  "updateInternalDependenciesMessages ext (json\<lparr>writtenConfig.bumpVersionsWithWorkspaceProtocolOnly := v\<rparr>) =
     updateInternalDependenciesMessages ext json"
  "ignoreMessages ext (json\<lparr>writtenConfig.bumpVersionsWithWorkspaceProtocolOnly := v\<rparr>) pkgs names =
     ignoreMessages ext json pkgs names"
  "experimentalMessages ext (json\<lparr>writtenConfig.bumpVersionsWithWorkspaceProtocolOnly := v\<rparr>) =
     experimentalMessages ext json"
  by (simp_all add: experimentalMessages_def changelogMessages_def accessMessages_def
      normalizedAccess_def commitMessages_def baseBranchMessages_def linkedMessages_def
      updateInternalDependenciesMessages_def ignoreMessages_def)

lemma collectMessages_bump:
  "collectMessages ext (json\<lparr>writtenConfig.bumpVersionsWithWorkspaceProtocolOnly := v\<rparr>) pkgs =
   collectMessages ext json pkgs"
  by (simp add: collectMessages_def messages_bump cong: sum.case_cong)

lemma buildConfig_bump:
  "buildConfig ext (json\<lparr>writtenConfig.bumpVersionsWithWorkspaceProtocolOnly := v\<rparr>) names =
   map_sum id (\<lambda>c. c\<lparr>config.bumpVersionsWithWorkspaceProtocolOnly := (v = Some (JBool True))\<rparr>)
     (buildConfig ext json names)"
  by (simp add: buildConfig_def configLinked_def configIgnore_def experimentalFlag_def
      normalizedAccess_def split: sum.splits option.splits)

text \<open>
  Claim C10. In a configuration that \<open>parse\<close> returns,
  \<open>bumpVersionsWithWorkspaceProtocolOnly\<close> is true exactly if the raw value is the boolean
  \<open>true\<close>. The raw value has no part in the checks: whatever it is set to, the collected
  messages are the same, and \<open>parse\<close> fails or succeeds as before, with that one field of
  the result following the raw value.
\<close>

theorem bump_flag_not_validated:
  "(parse ext json pkgs = Inr cfg \<longrightarrow>
      config.bumpVersionsWithWorkspaceProtocolOnly cfg =
        (writtenConfig.bumpVersionsWithWorkspaceProtocolOnly json = Some (JBool True))) \<and>
   collectMessages ext (json\<lparr>writtenConfig.bumpVersionsWithWorkspaceProtocolOnly := v\<rparr>) pkgs =
     collectMessages ext json pkgs \<and>
   parse ext (json\<lparr>writtenConfig.bumpVersionsWithWorkspaceProtocolOnly := v\<rparr>) pkgs =
     map_sum id (\<lambda>c. c\<lparr>config.bumpVersionsWithWorkspaceProtocolOnly := (v = Some (JBool True))\<rparr>)
       (parse ext json pkgs)"
proof (intro conjI impI)
  assume p: "parse ext json pkgs = Inr cfg"
  show "config.bumpVersionsWithWorkspaceProtocolOnly cfg =
        (writtenConfig.bumpVersionsWithWorkspaceProtocolOnly json = Some (JBool True))"
    by (rule buildConfig_Inr(8)[OF parse_Inr(2)[OF p]])
next
  show "collectMessages ext (json\<lparr>writtenConfig.bumpVersionsWithWorkspaceProtocolOnly := v\<rparr>) pkgs =
        collectMessages ext json pkgs"
    by (rule collectMessages_bump)
next
  show "parse ext (json\<lparr>writtenConfig.bumpVersionsWithWorkspaceProtocolOnly := v\<rparr>) pkgs =
     map_sum id (\<lambda>c. c\<lparr>config.bumpVersionsWithWorkspaceProtocolOnly := (v = Some (JBool True))\<rparr>)
       (parse ext json pkgs)"
    by (simp add: parse_def collectMessages_bump buildConfig_bump split: sum.splits)
qed

text \<open>The theorem on the raw values \<open>true\<close> and \<open>"true"\<close>.\<close>

theorem bump_flag_not_validated_witness:
  "parse exampleExternals
     (emptyWrittenConfig\<lparr>writtenConfig.bumpVersionsWithWorkspaceProtocolOnly := Some (JBool True)\<rparr>)
     examplePackages =
     Inr (fallbackConfig\<lparr>config.bumpVersionsWithWorkspaceProtocolOnly := True\<rparr>) \<and>
   parse exampleExternals
     (emptyWrittenConfig\<lparr>writtenConfig.bumpVersionsWithWorkspaceProtocolOnly := Some (JStr ''true'')\<rparr>)
     examplePackages =
     Inr (fallbackConfig\<lparr>config.bumpVersionsWithWorkspaceProtocolOnly := False\<rparr>) \<and>
   collectMessages exampleExternals
     (emptyWrittenConfig\<lparr>writtenConfig.bumpVersionsWithWorkspaceProtocolOnly := Some (JStr ''true'')\<rparr>)
     examplePackages = Inr []"
proof -
  have p: "parse exampleExternals emptyWrittenConfig examplePackages = Inr fallbackConfig"
    by (simp add: parse_unfold)
  have c: "collectMessages exampleExternals emptyWrittenConfig examplePackages = Inr []"
    by (simp add: parse_unfold)
  from bump_flag_not_validated[of exampleExternals emptyWrittenConfig examplePackages fallbackConfig
      "Some (JBool True)"]
    bump_flag_not_validated[of exampleExternals emptyWrittenConfig examplePackages fallbackConfig
      "Some (JStr ''true'')"]
  show ?thesis using p c by simp
qed

text \<open>
  What the check of lines 274 to 285 does establish, on the raw list: in a configuration
  that \<open>parse\<close> returns, every dependent that the graph has under a raw \<open>ignore\<close> entry is
  itself a raw entry; one that is not is reported with the message that names both.
\<close>

lemma dependentsMessages_complete:
  assumes "P \<in> set ignoreList" "getDependentsGraph ext pkgs P = Some ds" "D \<in> set ds"
      and "D \<notin> set ignoreList"
  shows "dependentMessage D P \<in> set (dependentsMessages ext pkgs ignoreList)"
  using assms by (force simp: dependentsMessages_def Let_def)

lemma ignore_raw_entries_closed:
  assumes "parse ext json pkgs = Inr cfg"
      and "writtenConfig.ignore json = Some v" "arrayOfStrings v = Some ignoreList"
      and "P \<in> set ignoreList" "getDependentsGraph ext pkgs P = Some ds" "D \<in> set ds"
  shows "D \<in> set ignoreList"
proof (rule ccontr)
  assume "D \<notin> set ignoreList"
  then have m: "dependentMessage D P \<in> set (dependentsMessages ext pkgs ignoreList)"
    using assms(4-6) by (intro dependentsMessages_complete)
  have "truthy v" using assms(3) by (cases v) simp_all
  then have "dependentMessage D P \<in> set (ignoreMessages ext json pkgs (pkgNamesOf pkgs))"
    using m assms(2,3) by (simp add: ignoreMessages_def)
  moreover have "collectMessages ext json pkgs = Inr []"
    by (rule parse_Inr(1)[OF assms(1)])
  ultimately show False
    by (auto simp: collectMessages_def split: sum.splits)
qed

text \<open>
  Claim C1 fails on the code. With \<open>ignore: ["pkg-*"]\<close> and a graph in which \<open>app\<close> depends
  on \<open>pkg-a\<close>, the dependents are looked up under the pattern itself, which is no package,
  so no message is collected: \<open>parse\<close> returns a configuration that ignores \<open>pkg-a\<close> and
  not its dependent \<open>app\<close>.
\<close>

theorem ignore_glob_not_closed:
  "parse exampleExternals (emptyWrittenConfig\<lparr>writtenConfig.ignore := Some (JArr [JStr ''pkg-*''])\<rparr>)
     examplePackages = Inr (fallbackConfig\<lparr>config.ignore := [''pkg-a'']\<rparr>) \<and>
   getDependentsGraph exampleExternals examplePackages ''pkg-a'' = Some [''app''] \<and>
   \<not> List.member [''pkg-a''] ''app''"
proof -
  have g: "buildDependentsGraph examplePackages ''pkg-a'' = Some [''app'']"
    by (simp add: buildDependentsGraph_def names_example declaresDependency_def DEPENDENCY_TYPES_def)
       (simp add: examplePackages_def examplePackage_def)
  have n: "buildDependentsGraph examplePackages ''pkg-*'' = None"
    by (simp add: buildDependentsGraph_def names_example)
       (simp add: examplePackages_def examplePackage_def)
  show ?thesis
    by (simp add: parse_unfold names_example exampleExternals_def g n)
qed

text \<open>
  What \<open>parse\<close> can do: throw a runtime error; or finish the checks and then return a
  configuration, when no message was collected, or throw the one validation error that
  carries all the collected messages in order.
\<close>

lemma getProp_error: "getProp v key = Inl e \<Longrightarrow> e = TypeError"
  by (cases v) simp_all

lemma collectMessages_error: "collectMessages ext json pkgs = Inl e \<Longrightarrow> e = TypeError"
  by (auto simp: collectMessages_def experimentalMessages_def dest: getProp_error
      split: sum.splits option.splits)

lemma buildConfig_error: "buildConfig ext json names = Inl e \<Longrightarrow> e = TypeError"
  by (auto simp: buildConfig_def configLinked_def configIgnore_def experimentalFlag_def
      dest: getProp_error split: sum.splits option.splits)

lemma parse_outcomes:
  "parse ext json pkgs = Inl TypeError \<or>
   (\<exists>messages. collectMessages ext json pkgs = Inr messages \<and>
      (if messages = [] then \<exists>cfg. parse ext json pkgs = Inr cfg
       else parse ext json pkgs = Inl (ValidationError (validationMessage messages))))"
proof (cases "collectMessages ext json pkgs")
  case (Inl e)
  then show ?thesis using collectMessages_error[OF Inl] by (simp add: parse_def)
next
  case (Inr messages)
  show ?thesis
  proof (cases "messages = []")
    case True
    then show ?thesis using Inr buildConfig_error[of ext json "pkgNamesOf pkgs"]
      by (cases "buildConfig ext json (pkgNamesOf pkgs)") (auto simp: parse_def)
  next
    case False
    then show ?thesis using Inr by (simp add: parse_def)
  qed
qed

text \<open>
  Claim C4 fails on the code. With \<open>___experimentalUnsafeOptions_WILL_CHANGE_IN_PATCH: null\<close>
  the destructuring of line 290 throws, for every package graph and all collaborators:
  \<open>parse\<close> fails with an error that is no validation error.
\<close>

theorem experimental_null_throws:
  "parse ext
     (emptyWrittenConfig\<lparr>writtenConfig.experimentalUnsafeOptions_WILL_CHANGE_IN_PATCH := Some JNull\<rparr>)
     pkgs = Inl TypeError"
  by (simp add: parse_def collectMessages_def experimentalMessages_def emptyWrittenConfig_def)

text \<open>
  Claim C8 fails on the code. With \<open>ignore\<close> set to \<open>null\<close>, \<open>false\<close>, \<open>0\<close> or the empty
  string, line 247 skips the check: no message is collected, and \<open>parse\<close> goes on to build
  the configuration, where \<open>normalizePackageNames\<close> throws on the value.
\<close>

theorem falsy_ignore_not_reported:
  "collectMessages ext (emptyWrittenConfig\<lparr>writtenConfig.ignore := Some JNull\<rparr>) pkgs = Inr [] \<and>
   collectMessages ext (emptyWrittenConfig\<lparr>writtenConfig.ignore := Some (JBool False)\<rparr>) pkgs = Inr [] \<and>
   collectMessages ext (emptyWrittenConfig\<lparr>writtenConfig.ignore := Some (JNum 0)\<rparr>) pkgs = Inr [] \<and>
   collectMessages ext (emptyWrittenConfig\<lparr>writtenConfig.ignore := Some (JStr [])\<rparr>) pkgs = Inr [] \<and>
   parse ext (emptyWrittenConfig\<lparr>writtenConfig.ignore := Some JNull\<rparr>) pkgs = Inl TypeError"
  by (simp add: parse_unfold)

end
